theory Spec2Isabelle
  imports Main "HOL-Library.Multiset"
begin

section \<open>Values, rows and errors\<close>

text \<open>
  A BigQuery row reaches the pipeline as a Python dictionary from column name to cell
  value. Cells of the two queries are strings (sample key, contig, alleles, population
  labels), integers (coordinates, allele indexes) or NULL, which Python reads as None.
  A column that the query did not select is not in the dictionary at all.
\<close>

datatype val = Str string | Num int | Null

type_synonym row = "string \<rightharpoonup> val"

text \<open>
  Every way the Python can stop is a value: \<open>KeyError\<close> for \<open>row[column]\<close> on a missing
  column, \<open>IOError\<close> for \<open>open\<close> on a missing file, \<open>ValueError\<close> for \<open>strftime\<close> and
  \<open>int\<close>, \<open>SystemExit\<close> for an argparse usage error, \<open>ZeroDivisionError\<close> for integer
  division by zero, and \<open>Raised\<close> for whatever a library or an encoder module raises.
\<close>

datatype error =
    KeyError string
  | IOError string
  | ValueError string
  | SystemExit nat
  | ZeroDivisionError
  | Raised string

definition and_then :: "error + 'a \<Rightarrow> ('a \<Rightarrow> error + 'b) \<Rightarrow> error + 'b" where
  "and_then m f = (case m of Inl e \<Rightarrow> Inl e | Inr x \<Rightarrow> f x)"

section \<open>Column names of the encoder modules\<close>

text \<open>
  The column-name constants live in \<open>trainer.feature_encoder\<close> and
  \<open>trainer.ancestry_metadata_encoder\<close>. The pipeline only refers to them by name, so
  they are a parameter of the model.
\<close>

record columns =
  KEY_COLUMN :: string
  CONTIG_COLUMN :: string
  START_COLUMN :: string
  END_COLUMN :: string
  REF_COLUMN :: string
  ALT_COLUMN :: string
  ALT_NUM_COLUMN :: string
  FIRST_ALLELE_COLUMN :: string
  SECOND_ALLELE_COLUMN :: string
  POPULATION_COLUMN :: string
  SUPER_POPULATION_COLUMN :: string
  GENDER_COLUMN :: string

section \<open>Beam transforms\<close>

text \<open>
  \<open>beam.Map(fn)\<close> applies \<open>fn\<close> to every element. An exception in \<open>fn\<close> fails the
  bundle and with it the pipeline: no element is skipped.
\<close>

fun beam_Map :: "('a \<Rightarrow> error + 'b) \<Rightarrow> 'a list \<Rightarrow> error + 'b list" where
  "beam_Map fn [] = Inr []"
| "beam_Map fn (x # xs) =
     (case fn x of
        Inl e \<Rightarrow> Inl e
      | Inr y \<Rightarrow> (case beam_Map fn xs of Inl e \<Rightarrow> Inl e | Inr ys \<Rightarrow> Inr (y # ys)))"

text \<open>
  \<open>beam.GroupByKey()\<close> turns key-value pairs into one pair per distinct key, holding
  all values of that key. Keys are compared for equality only. The list order stands
  for the arrival order; Beam promises none.
\<close>

definition GroupByKey :: "('k \<times> 'v) list \<Rightarrow> ('k \<times> 'v list) list" where
  "GroupByKey kvs =
     map (\<lambda>k. (k, map snd (filter (\<lambda>kv. fst kv = k) kvs))) (remdups (map fst kvs))"

text \<open>
  \<open>beam.CombineGlobally(fn)\<close> folds the whole input collection into one value: its
  output is a collection of exactly one element, also for an empty input.
  \<open>beam.pvalue.AsSingleton(pcoll)\<close> reads a collection as the side input of a
  transform; it is the one element of the collection, and an error when the
  collection does not hold exactly one.
\<close>

definition CombineGlobally :: "('a list \<Rightarrow> 'b) \<Rightarrow> 'a list \<Rightarrow> 'b list" where
  "CombineGlobally combine_fn pcoll = [combine_fn pcoll]"

definition AsSingleton :: "'a list \<Rightarrow> error + 'a" where
  "AsSingleton pcoll =
     (case pcoll of
        [x] \<Rightarrow> Inr x
      | _ \<Rightarrow> Inl (ValueError ''singleton side input without exactly one element''))"

section \<open>variants_to_examples\<close>

text \<open>
  \<^verbatim>\<open>
  variant_kvs = input_data | 'BucketVariants' >> beam.Map(
      lambda row: (row[encoder.KEY_COLUMN], row))
  sample_variant_kvs = variant_kvs | 'GroupBySample' >> beam.GroupByKey()
  examples = (sample_variant_kvs | 'SamplesToExamples' >> beam.Map(
      lambda (key, vals), samples_metadata: sample_to_example_fn(
          key, vals, samples_metadata),
      beam.pvalue.AsSingleton(samples_metadata)))
  return examples
  \<close>
  The parameter \<open>samples_metadata\<close> of the definition is the value that
  \<open>AsSingleton\<close> reads from the collection the caller passes; the caller does the
  read.
\<close>

definition BucketVariants :: "columns \<Rightarrow> row \<Rightarrow> error + (val \<times> row)" where
  "BucketVariants c row =
     (case row (KEY_COLUMN c) of
        None \<Rightarrow> Inl (KeyError (KEY_COLUMN c))
      | Some key \<Rightarrow> Inr (key, row))"

definition variants_to_examples ::
  "columns \<Rightarrow> row list \<Rightarrow> 'md \<Rightarrow> (val \<Rightarrow> row list \<Rightarrow> 'md \<Rightarrow> error + 'ex) \<Rightarrow> error + 'ex list" where
  "variants_to_examples c input_data samples_metadata sample_to_example_fn =
     and_then (beam_Map (BucketVariants c) input_data) (\<lambda>variant_kvs.
       let sample_variant_kvs = GroupByKey variant_kvs
       in beam_Map (\<lambda>(key, vals). sample_to_example_fn key vals samples_metadata)
            sample_variant_kvs)"

section \<open>Query template replacements\<close>

text \<open>
  The two module-level dictionaries handed to the Jinja templates: placeholder name to
  the column name the pipeline uses internally.
\<close>

definition METADATA_QUERY_REPLACEMENTS :: "columns \<Rightarrow> (string \<rightharpoonup> string)" where
  "METADATA_QUERY_REPLACEMENTS c = [
     ''KEY_COLUMN'' \<mapsto> KEY_COLUMN c,
     ''POPULATION_COLUMN'' \<mapsto> POPULATION_COLUMN c,
     ''SUPER_POPULATION_COLUMN'' \<mapsto> SUPER_POPULATION_COLUMN c,
     ''GENDER_COLUMN'' \<mapsto> GENDER_COLUMN c]"

definition DATA_QUERY_REPLACEMENTS :: "columns \<Rightarrow> (string \<rightharpoonup> string)" where
  "DATA_QUERY_REPLACEMENTS c = [
     ''KEY_COLUMN'' \<mapsto> KEY_COLUMN c,
     ''CONTIG_COLUMN'' \<mapsto> CONTIG_COLUMN c,
     ''START_COLUMN'' \<mapsto> START_COLUMN c,
     ''END_COLUMN'' \<mapsto> END_COLUMN c,
     ''REF_COLUMN'' \<mapsto> REF_COLUMN c,
     ''ALT_COLUMN'' \<mapsto> ALT_COLUMN c,
     ''ALT_NUM_COLUMN'' \<mapsto> ALT_NUM_COLUMN c,
     ''FIRST_ALLELE_COLUMN'' \<mapsto> FIRST_ALLELE_COLUMN c,
     ''SECOND_ALLELE_COLUMN'' \<mapsto> SECOND_ALLELE_COLUMN c]"

section \<open>Decimal text\<close>

definition digit :: "nat \<Rightarrow> char" where
  "digit n = ''0123456789'' ! (n mod 10)"

fun str_nat :: "nat \<Rightarrow> string" where
  "str_nat n = (if n < 10 then [digit n] else str_nat (n div 10) @ [digit n])"

declare str_nat.simps [simp del]

definition str_int :: "int \<Rightarrow> string" where
  "str_int i = (if i < 0 then CHR ''-'' # str_nat (nat (- i)) else str_nat (nat i))"

text \<open>
  Python's \<open>int(text)\<close> in base ten, which is argparse's \<open>type=int\<close>: surrounding
  whitespace is dropped, one sign is allowed, and at least one digit has to follow.
\<close>

definition is_space :: "char \<Rightarrow> bool" where
  "is_space ch = (ch \<in> set [CHR '' '', CHR 0x09, CHR 0x0A, CHR 0x0B, CHR 0x0C, CHR 0x0D])"

definition strip :: "string \<Rightarrow> string" where
  "strip s = rev (dropWhile is_space (rev (dropWhile is_space s)))"

definition is_digit :: "char \<Rightarrow> bool" where
  "is_digit ch = (ch \<in> set ''0123456789'')"

definition digit_value :: "char \<Rightarrow> int" where
  "digit_value ch = int (of_char ch) - 48"

definition digits_value :: "string \<Rightarrow> int" where
  "digits_value ds = foldl (\<lambda>acc ch. 10 * acc + digit_value ch) 0 ds"

definition unsigned_int :: "string \<Rightarrow> error + int" where
  "unsigned_int ds =
     (if ds \<noteq> [] \<and> list_all is_digit ds then Inr (digits_value ds)
      else Inl (ValueError ''invalid literal for int() with base 10''))"

definition py_int :: "string \<Rightarrow> error + int" where
  "py_int text =
     (case strip text of
        [] \<Rightarrow> Inl (ValueError ''invalid literal for int() with base 10'')
      | ch # rest \<Rightarrow>
          if ch = CHR ''-'' then and_then (unsigned_int rest) (\<lambda>n. Inr (- n))
          else if ch = CHR ''+'' then unsigned_int rest
          else unsigned_int (ch # rest))"

section \<open>PreprocessOptions\<close>

text \<open>
  The command line as argparse sees it: the sequence of occurrences of the six options
  that \<open>_add_argparse_args\<close> declares, each with its value text. Arguments that belong
  to other option classes are not part of this view (\<open>parse_known_args\<close> leaves them
  alone).
\<close>

datatype flag =
    Output string
  | Input string
  | Metadata string
  | HethomWords
  | NoHethomWords
  | BinSize string

record Namespace =
  ns_output :: "string option"
  ns_input :: "string option"
  ns_metadata :: "string option"
  ns_add_hethom :: bool
  ns_bin_size :: "int option"

record PreprocessOptions =
  output' :: string
  input :: string
  metadata :: string
  add_hethom :: bool
  bin_size :: "int option"

text \<open>\<open>parser.set_defaults(add_hethom=True)\<close>; every other destination starts as None.\<close>

definition defaults :: Namespace where
  "defaults = \<lparr>ns_output = None, ns_input = None, ns_metadata = None,
                ns_add_hethom = True, ns_bin_size = None\<rparr>"

text \<open>
  One action per occurrence: \<open>store\<close> for the valued options (\<open>--bin_size\<close> through
  \<open>type=int\<close>, a usage error when the text is no integer), \<open>store_true\<close> and
  \<open>store_false\<close> on the shared destination \<open>add_hethom\<close>.
\<close>

fun action :: "Namespace \<Rightarrow> flag \<Rightarrow> error + Namespace" where
  "action ns (Output v) = Inr (ns\<lparr>ns_output := Some v\<rparr>)"
| "action ns (Input v) = Inr (ns\<lparr>ns_input := Some v\<rparr>)"
| "action ns (Metadata v) = Inr (ns\<lparr>ns_metadata := Some v\<rparr>)"
| "action ns HethomWords = Inr (ns\<lparr>ns_add_hethom := True\<rparr>)"
| "action ns NoHethomWords = Inr (ns\<lparr>ns_add_hethom := False\<rparr>)"
| "action ns (BinSize v) =
     (case py_int v of
        Inl e \<Rightarrow> Inl (SystemExit 2)
      | Inr n \<Rightarrow> Inr (ns\<lparr>ns_bin_size := Some n\<rparr>))"

fun parse_known_args :: "Namespace \<Rightarrow> flag list \<Rightarrow> error + Namespace" where
  "parse_known_args ns [] = Inr ns"
| "parse_known_args ns (a # args) =
     (case action ns a of Inl e \<Rightarrow> Inl e | Inr ns' \<Rightarrow> parse_known_args ns' args)"

text \<open>\<open>required=True\<close> for \<open>--output\<close>, \<open>--input\<close> and \<open>--metadata\<close>.\<close>

definition required :: "Namespace \<Rightarrow> error + PreprocessOptions" where
  "required ns =
     (case (ns_output ns, ns_input ns, ns_metadata ns) of
        (Some out, Some inp, Some meta) \<Rightarrow>
          Inr \<lparr>output' = out, input = inp, metadata = meta,
               add_hethom = ns_add_hethom ns, bin_size = ns_bin_size ns\<rparr>
      | _ \<Rightarrow> Inl (SystemExit 2))"

definition parse_args :: "flag list \<Rightarrow> error + PreprocessOptions" where
  "parse_args argv = and_then (parse_known_args defaults argv) required"

section \<open>Clock and paths\<close>

record datetime =
  year :: nat
  month :: nat
  day :: nat
  hour :: nat
  minute :: nat
  second :: nat
  microsecond :: nat

definition pad2 :: "nat \<Rightarrow> string" where
  "pad2 n = [digit (n div 10), digit n]"

text \<open>The directives the pipeline uses; any other directive is kept as written.\<close>

definition directive :: "datetime \<Rightarrow> char \<Rightarrow> string" where
  "directive dt d =
     (if d = CHR ''Y'' then str_nat (year dt)
      else if d = CHR ''y'' then pad2 (year dt mod 100)
      else if d = CHR ''m'' then pad2 (month dt)
      else if d = CHR ''d'' then pad2 (day dt)
      else if d = CHR ''H'' then pad2 (hour dt)
      else if d = CHR ''M'' then pad2 (minute dt)
      else if d = CHR ''S'' then pad2 (second dt)
      else [CHR ''%'', d])"

fun expand :: "datetime \<Rightarrow> string \<Rightarrow> string" where
  "expand dt [] = []"
| "expand dt [ch] = [ch]"
| "expand dt (ch # d # rest) =
     (if ch = CHR ''%'' then directive dt d @ expand dt rest
      else ch # expand dt (d # rest))"

text \<open>Python 2's \<open>strftime\<close> refuses years before 1900.\<close>

definition strftime :: "datetime \<Rightarrow> string \<Rightarrow> error + string" where
  "strftime dt fmt =
     (if year dt < 1900 then Inl (ValueError ''year is before 1900'')
      else Inr (expand dt fmt))"

text \<open>\<open>os.path.join\<close> on POSIX: an absolute component restarts the path.\<close>

definition join2 :: "string \<Rightarrow> string \<Rightarrow> string" where
  "join2 path b =
     (if b \<noteq> [] \<and> hd b = CHR ''/'' then b
      else if path = [] \<or> last path = CHR ''/'' then path @ b
      else path @ ''/'' @ b)"

definition os_path_join :: "string \<Rightarrow> string list \<Rightarrow> string" where
  "os_path_join a p = foldl join2 a p"

section \<open>The collaborators of run\<close>

text \<open>
  What \<open>run\<close> reads from outside the program: the template files, Jinja's rendering
  of a template with a dictionary, the rows BigQuery returns for a query, and the clock
  (\<open>now w n\<close> is the reading of the \<open>n\<close>-th call of \<open>datetime.datetime.now()\<close>).
\<close>

record world =
  files :: "string \<rightharpoonup> string"
  render :: "string \<Rightarrow> (string \<rightharpoonup> string) \<Rightarrow> error + string"
  BigQuerySource :: "string \<Rightarrow> error + row list"
  now :: "nat \<Rightarrow> datetime"

text \<open>
  What \<open>run\<close> calls in the modules \<open>trainer.variant_encoder\<close>, \<open>trainer.feature_encoder\<close>,
  \<open>trainer.ancestry_metadata_encoder\<close> and \<open>trainer.util\<close>. They are parameters: the
  strategies are opaque values (\<open>'nf\<close> a feature-name strategy, \<open>'wf\<close> a word strategy,
  \<open>'vf\<close> a variants-to-features strategy, \<open>'mf\<close> a metadata-to-features strategy), a
  builder may raise, \<open>TableToDictCombineFn key rows\<close> is what the combine function folds
  \<open>rows\<close> into, and \<open>SerializeToString\<close> is the method of the Example proto.
\<close>

record ('nf, 'wf, 'vf, 'mf, 'md, 'ex) trainer =
  variant_to_contig_feature_name :: 'nf
  build_variant_to_binned_feature_name :: "int \<Rightarrow> error + 'nf"
  build_variant_to_words :: "bool \<Rightarrow> error + 'wf"
  build_variants_to_features :: "'nf \<Rightarrow> 'wf \<Rightarrow> error + 'vf"
  metadata_to_ancestry_features :: 'mf
  build_sample_to_example ::
    "'mf \<Rightarrow> 'vf \<Rightarrow> error + (val \<Rightarrow> row list \<Rightarrow> 'md \<Rightarrow> error + 'ex)"
  TableToDictCombineFn :: "string \<Rightarrow> row list \<Rightarrow> 'md"
  SerializeToString :: "'ex \<Rightarrow> string"

section \<open>run\<close>

record job =
  output_dir :: string
  save_main_session :: bool
  autoscaling_algorithm :: string
  staging_location :: string
  temp_location :: string
  job_name :: string

datatype CompressionTypes = AUTO | GZIP | UNCOMPRESSED

record tfrecords =
  file_path_prefix :: string
  compression_type :: CompressionTypes
  file_name_suffix :: string
  records :: "string list"

text \<open>
  \<^verbatim>\<open>
  output_dir = os.path.join(preprocess_options.output,
                            datetime.datetime.now().strftime('%Y%m%d-%H%M%S'))
  pipeline_options.view_as(SetupOptions).save_main_session = True
  pipeline_options.view_as(
      WorkerOptions).autoscaling_algorithm = 'THROUGHPUT_BASED'
  cloud_options.staging_location = os.path.join(output_dir, 'tmp', 'staging')
  cloud_options.temp_location = os.path.join(output_dir, 'tmp')
  cloud_options.job_name = 'preprocess-varianteatures-%s' % (
      datetime.datetime.now().strftime('%y%m%d-%H%M%S'))
  \<close>
\<close>

definition job_options :: "world \<Rightarrow> PreprocessOptions \<Rightarrow> error + job" where
  "job_options w preprocess_options =
     and_then (strftime (now w 0) ''%Y%m%d-%H%M%S'') (\<lambda>stamp.
       let out = os_path_join (output' preprocess_options) [stamp]
       in and_then (strftime (now w 1) ''%y%m%d-%H%M%S'') (\<lambda>job_stamp.
            Inr \<lparr>output_dir = out,
                 save_main_session = True,
                 autoscaling_algorithm = ''THROUGHPUT_BASED'',
                 staging_location = os_path_join out [''tmp'', ''staging''],
                 temp_location = os_path_join out [''tmp''],
                 job_name = ''preprocess-varianteatures-'' @ job_stamp\<rparr>))"

text \<open>\<^verbatim>\<open>str(Template(open(path, 'r').read()).render(replacements))\<close>\<close>

definition render_query :: "world \<Rightarrow> string \<Rightarrow> (string \<rightharpoonup> string) \<Rightarrow> error + string" where
  "render_query w path replacements =
     (case files w path of
        None \<Rightarrow> Inl (IOError path)
      | Some template \<Rightarrow> render w template replacements)"

text \<open>
  \<^verbatim>\<open>
  variant_to_feature_name_fn = variant_encoder.variant_to_contig_feature_name
  if preprocess_options.bin_size is not None:
    variant_to_feature_name_fn = variant_encoder.build_variant_to_binned_feature_name(
        bin_size=preprocess_options.bin_size)
  \<close>
\<close>

definition variant_to_feature_name_fn ::
  "('nf, 'wf, 'vf, 'mf, 'md, 'ex) trainer \<Rightarrow> PreprocessOptions \<Rightarrow> error + 'nf" where
  "variant_to_feature_name_fn t preprocess_options =
     (case bin_size preprocess_options of
        None \<Rightarrow> Inr (variant_to_contig_feature_name t)
      | Some n \<Rightarrow> build_variant_to_binned_feature_name t n)"

text \<open>
  \<^verbatim>\<open>
  variants_to_features_fn = variant_encoder.build_variants_to_features(
      variant_to_feature_name_fn=variant_to_feature_name_fn,
      variant_to_words_fn=variant_encoder.build_variant_to_words(
          add_hethom=preprocess_options.add_hethom))
  \<close>
\<close>

definition variants_to_features_fn ::
  "('nf, 'wf, 'vf, 'mf, 'md, 'ex) trainer \<Rightarrow> PreprocessOptions \<Rightarrow> error + 'vf" where
  "variants_to_features_fn t preprocess_options =
     and_then (variant_to_feature_name_fn t preprocess_options) (\<lambda>name_fn.
     and_then (build_variant_to_words t (add_hethom preprocess_options)) (\<lambda>words_fn.
       build_variants_to_features t name_fn words_fn))"

text \<open>
  \<^verbatim>\<open>
  sample_to_example_fn = encoder.build_sample_to_example(
      metadata_to_features_fn=metadata_encoder.metadata_to_ancestry_features,
      variants_to_features_fn=variants_to_features_fn)
  \<close>
\<close>

definition sample_to_example_fn ::
  "('nf, 'wf, 'vf, 'mf, 'md, 'ex) trainer \<Rightarrow> PreprocessOptions \<Rightarrow>
     error + (val \<Rightarrow> row list \<Rightarrow> 'md \<Rightarrow> error + 'ex)" where
  "sample_to_example_fn t preprocess_options =
     and_then (variants_to_features_fn t preprocess_options) (\<lambda>features_fn.
       build_sample_to_example t (metadata_to_ancestry_features t) features_fn)"

text \<open>
  The body of \<open>with beam.Pipeline(options=pipeline_options) as p\<close>: read the metadata
  rows and combine them globally into the collection \<open>samples_metadata\<close>, read the
  variant rows, convert them with \<open>samples_metadata\<close> as singleton side input,
  serialise, write.
\<close>

definition pipeline ::
  "columns \<Rightarrow> ('nf, 'wf, 'vf, 'mf, 'md, 'ex) trainer \<Rightarrow> world \<Rightarrow> job \<Rightarrow> string \<Rightarrow> string \<Rightarrow>
     (val \<Rightarrow> row list \<Rightarrow> 'md \<Rightarrow> error + 'ex) \<Rightarrow> error + tfrecords" where
  "pipeline c t w options metadata_query data_query example_fn =
     and_then (BigQuerySource w metadata_query) (\<lambda>metadata_rows.
       let samples_metadata =
             CombineGlobally (TableToDictCombineFn t (KEY_COLUMN c)) metadata_rows
       in and_then (BigQuerySource w data_query) (\<lambda>rows.
          and_then (AsSingleton samples_metadata) (\<lambda>side_input.
          and_then (variants_to_examples c rows side_input example_fn) (\<lambda>examples.
            Inr \<lparr>file_path_prefix = os_path_join (output_dir options) [''examples''],
                 compression_type = GZIP,
                 file_name_suffix = ''.tfrecord.gz'',
                 records = map (SerializeToString t) examples\<rparr>))))"

text \<open>Everything \<open>run\<close> does before it opens the pipeline.\<close>

definition startup ::
  "columns \<Rightarrow> ('nf, 'wf, 'vf, 'mf, 'md, 'ex) trainer \<Rightarrow> world \<Rightarrow> flag list \<Rightarrow>
     error + (job \<times> string \<times> string \<times> (val \<Rightarrow> row list \<Rightarrow> 'md \<Rightarrow> error + 'ex))" where
  "startup c t w argv =
     and_then (parse_args argv) (\<lambda>preprocess_options.
     and_then (job_options w preprocess_options) (\<lambda>options.
     and_then (render_query w (metadata preprocess_options) (METADATA_QUERY_REPLACEMENTS c))
       (\<lambda>metadata_query.
     and_then (render_query w (input preprocess_options) (DATA_QUERY_REPLACEMENTS c))
       (\<lambda>data_query.
     and_then (sample_to_example_fn t preprocess_options) (\<lambda>example_fn.
       Inr (options, metadata_query, data_query, example_fn))))))"

definition run ::
  "columns \<Rightarrow> ('nf, 'wf, 'vf, 'mf, 'md, 'ex) trainer \<Rightarrow> world \<Rightarrow> flag list \<Rightarrow>
     error + (job \<times> tfrecords)" where
  "run c t w argv =
     and_then (startup c t w argv) (\<lambda>(options, metadata_query, data_query, example_fn).
     and_then (pipeline c t w options metadata_query data_query example_fn) (\<lambda>written.
       Inr (options, written)))"

section \<open>An instance of the encoder modules\<close>

text \<open>
  Modelled from the spec: the modules \<open>trainer.feature_encoder\<close>,
  \<open>trainer.variant_encoder\<close>, \<open>trainer.ancestry_metadata_encoder\<close> and \<open>trainer.util\<close>
  are not among the sources. The definitions of this section follow sections 3 and 4.1
  to 4.6 of the specification, so that the pipeline can be run on concrete rows.
\<close>

definition spec_columns :: columns where
  "spec_columns =
     \<lparr>KEY_COLUMN = ''key'', CONTIG_COLUMN = ''contig'', START_COLUMN = ''start'',
      END_COLUMN = ''end'', REF_COLUMN = ''ref'', ALT_COLUMN = ''alt'',
      ALT_NUM_COLUMN = ''alt_num'', FIRST_ALLELE_COLUMN = ''first'',
      SECOND_ALLELE_COLUMN = ''second'', POPULATION_COLUMN = ''population'',
      SUPER_POPULATION_COLUMN = ''super_population'', GENDER_COLUMN = ''gender''\<rparr>"

definition get_str :: "row \<Rightarrow> string \<Rightarrow> error + string" where
  "get_str r col =
     (case r col of
        None \<Rightarrow> Inl (KeyError col)
      | Some (Str s) \<Rightarrow> Inr s
      | Some other \<Rightarrow> Inl (Raised ''TypeError''))"

definition get_num :: "row \<Rightarrow> string \<Rightarrow> error + int" where
  "get_num r col =
     (case r col of
        None \<Rightarrow> Inl (KeyError col)
      | Some (Num n) \<Rightarrow> Inr n
      | Some other \<Rightarrow> Inl (Raised ''TypeError''))"

text \<open>Modelled from the spec: 4.3, contig strategy. The slot is the contig name.\<close>

definition spec_contig_feature_name :: "columns \<Rightarrow> row \<Rightarrow> error + string" where
  "spec_contig_feature_name c variant = get_str variant (CONTIG_COLUMN c)"

text \<open>
  Modelled from the spec: 4.3, binned strategy. The slot is the contig name joined to
  \<open>start // bin_size\<close> (floor division), as in the example \<open>chr1:2\<close> of section 8.
\<close>

definition spec_binned_feature_name :: "columns \<Rightarrow> int \<Rightarrow> row \<Rightarrow> error + string" where
  "spec_binned_feature_name c width variant =
     and_then (get_str variant (CONTIG_COLUMN c)) (\<lambda>contig.
     and_then (get_num variant (START_COLUMN c)) (\<lambda>start.
       if width = 0 then Inl ZeroDivisionError
       else Inr (contig @ '':'' @ str_int (start div width))))"

text \<open>
  Modelled from the spec: 4.3 and 7, the builder of the binned strategy in
  \<open>trainer.variant_encoder\<close>. The bin width is a positive integer; a width that is not
  positive is a configuration error, refused when the strategy is built.
\<close>

definition spec_build_binned_feature_name ::
  "columns \<Rightarrow> int \<Rightarrow> error + (row \<Rightarrow> error + string)" where
  "spec_build_binned_feature_name c width =
     (if width \<le> 0 then Inl (ValueError ''bin_size must be a positive integer'')
      else Inr (spec_binned_feature_name c width))"

text \<open>
  Modelled from the spec: 4.2. The token names the alternate allele and, when enabled,
  whether both alleles of the call are the alternate (homozygous) or not.
\<close>

definition spec_variant_to_words :: "columns \<Rightarrow> bool \<Rightarrow> row \<Rightarrow> error + string" where
  "spec_variant_to_words c hethom variant =
     and_then (get_str variant (ALT_COLUMN c)) (\<lambda>alt.
       if hethom then
         and_then (get_num variant (ALT_NUM_COLUMN c)) (\<lambda>alt_num.
         and_then (get_num variant (FIRST_ALLELE_COLUMN c)) (\<lambda>allele1.
         and_then (get_num variant (SECOND_ALLELE_COLUMN c)) (\<lambda>allele2.
           Inr (alt @ (if allele1 = alt_num \<and> allele2 = alt_num then ''_hom''
                       else ''_het'')))))
       else Inr alt)"

text \<open>
  Modelled from the spec: 4.4. Each variant appends its token to the token list of its
  slot, in arrival order.
\<close>

fun append_token ::
  "(string \<times> string list) list \<Rightarrow> string \<Rightarrow> string \<Rightarrow> (string \<times> string list) list" where
  "append_token [] slot token = [(slot, [token])]"
| "append_token ((s, tokens) # slots) slot token =
     (if s = slot then (s, tokens @ [token]) # slots
      else (s, tokens) # append_token slots slot token)"

fun spec_variants_to_features ::
  "(row \<Rightarrow> error + string) \<Rightarrow> (row \<Rightarrow> error + string) \<Rightarrow> (string \<times> string list) list \<Rightarrow>
     row list \<Rightarrow> error + (string \<times> string list) list" where
  "spec_variants_to_features name_fn words_fn slots [] = Inr slots"
| "spec_variants_to_features name_fn words_fn slots (variant # variants) =
     and_then (name_fn variant) (\<lambda>slot.
     and_then (words_fn variant) (\<lambda>token.
       spec_variants_to_features name_fn words_fn (append_token slots slot token) variants))"

text \<open>
  Modelled from the spec: 4.5. Three values copied from the metadata record; the NA
  sentinel stands in for a value that is not there.
\<close>

definition spec_metadata_features :: "columns \<Rightarrow> row \<Rightarrow> string \<times> string \<times> string" where
  "spec_metadata_features c entry =
     (let field = (\<lambda>col. case entry col of Some (Str s) \<Rightarrow> s | _ \<Rightarrow> ''NA'')
      in (field (POPULATION_COLUMN c), field (SUPER_POPULATION_COLUMN c),
          field (GENDER_COLUMN c)))"

text \<open>
  Modelled from the spec: 4.1. The rows are folded into one mapping from sample key to
  row; a row without the key is dropped, and of two rows with one key the later wins.
\<close>

definition spec_table_to_dict :: "string \<Rightarrow> row list \<Rightarrow> (val \<rightharpoonup> row)" where
  "spec_table_to_dict key_column table =
     foldl (\<lambda>dict r. case r key_column of None \<Rightarrow> dict | Some key \<Rightarrow> dict(key \<mapsto> r))
       Map.empty table"

record example =
  sample :: val
  variants :: "(string \<times> string list) list"
  population :: string
  super_population :: string
  gender :: string

text \<open>
  Modelled from the spec: 4.6. The metadata record is looked up by sample key, a miss
  gives the NA record, and a failure of the variant features is passed on.
\<close>

definition spec_sample_to_example ::
  "(row \<Rightarrow> string \<times> string \<times> string) \<Rightarrow> (row list \<Rightarrow> error + (string \<times> string list) list) \<Rightarrow>
     val \<Rightarrow> row list \<Rightarrow> (val \<rightharpoonup> row) \<Rightarrow> error + example" where
  "spec_sample_to_example metadata_fn features_fn key vals samples_metadata =
     and_then (features_fn vals) (\<lambda>slots.
       let entry = (case samples_metadata key of None \<Rightarrow> Map.empty | Some r \<Rightarrow> r);
           (pop, super, sex) = metadata_fn entry
       in Inr \<lparr>sample = key, variants = slots, population = pop,
               super_population = super, gender = sex\<rparr>)"

definition str_val :: "val \<Rightarrow> string" where
  "str_val v = (case v of Str s \<Rightarrow> s | Num n \<Rightarrow> str_int n | Null \<Rightarrow> ''None'')"

definition spec_serialize :: "example \<Rightarrow> string" where
  "spec_serialize ex =
     str_val (sample ex) @ ''|'' @ population ex @ ''|'' @ super_population ex @ ''|''
       @ gender ex
       @ concat (map (\<lambda>(slot, tokens). ''|'' @ slot @ ''='' @ concat (map (\<lambda>t. t @ '','') tokens))
                   (variants ex))"

definition spec_trainer ::
  "(row \<Rightarrow> error + string, row \<Rightarrow> error + string,
    row list \<Rightarrow> error + (string \<times> string list) list,
    row \<Rightarrow> string \<times> string \<times> string, val \<rightharpoonup> row, example) trainer" where
  "spec_trainer =
     \<lparr>variant_to_contig_feature_name = spec_contig_feature_name spec_columns,
      build_variant_to_binned_feature_name = spec_build_binned_feature_name spec_columns,
      build_variant_to_words = (\<lambda>hethom. Inr (spec_variant_to_words spec_columns hethom)),
      build_variants_to_features =
        (\<lambda>name_fn words_fn. Inr (spec_variants_to_features name_fn words_fn [])),
      metadata_to_ancestry_features = spec_metadata_features spec_columns,
      build_sample_to_example =
        (\<lambda>metadata_fn features_fn. Inr (spec_sample_to_example metadata_fn features_fn)),
      TableToDictCombineFn = spec_table_to_dict,
      SerializeToString = spec_serialize\<rparr>"

section \<open>A small world\<close>

text \<open>
  A renderer for templates whose placeholders are whole words \<open>{{NAME}}\<close> between single
  blanks; a name without replacement renders as nothing, as Jinja's undefined does.
\<close>

fun split_words :: "string \<Rightarrow> string \<Rightarrow> string list" where
  "split_words word [] = [rev word]"
| "split_words word (ch # rest) =
     (if ch = CHR '' '' then rev word # split_words [] rest
      else split_words (ch # word) rest)"

definition render_word :: "(string \<rightharpoonup> string) \<Rightarrow> string \<Rightarrow> string" where
  "render_word replacements word =
     (if 4 \<le> length word \<and> take 2 word = ''{{'' \<and> drop (length word - 2) word = ''}}''
      then (case replacements (take (length word - 4) (drop 2 word)) of
              None \<Rightarrow> []
            | Some v \<Rightarrow> v)
      else word)"

fun unwords :: "string list \<Rightarrow> string" where
  "unwords [] = []"
| "unwords [word] = word"
| "unwords (word # others) = word @ '' '' @ unwords others"

definition render_words :: "string \<Rightarrow> (string \<rightharpoonup> string) \<Rightarrow> error + string" where
  "render_words template replacements =
     Inr (unwords (map (render_word replacements) (split_words [] template)))"

definition variant_row :: "string \<Rightarrow> string \<Rightarrow> int \<Rightarrow> string \<Rightarrow> int \<Rightarrow> int \<Rightarrow> int \<Rightarrow> row" where
  "variant_row key contig start alt alt_num allele1 allele2 =
     [''key'' \<mapsto> Str key, ''contig'' \<mapsto> Str contig, ''start'' \<mapsto> Num start,
      ''alt'' \<mapsto> Str alt, ''alt_num'' \<mapsto> Num alt_num, ''first'' \<mapsto> Num allele1,
      ''second'' \<mapsto> Num allele2]"

definition metadata_row :: "string \<Rightarrow> string \<Rightarrow> string \<Rightarrow> string \<Rightarrow> row" where
  "metadata_row key pop super sex =
     [''key'' \<mapsto> Str key, ''population'' \<mapsto> Str pop,
      ''super_population'' \<mapsto> Str super, ''gender'' \<mapsto> Str sex]"

definition small_variants :: "row list" where
  "small_variants =
     [variant_row ''S1'' ''chr1'' 100 ''A'' 1 0 1,
      variant_row ''S2'' ''chr1'' 100 ''A'' 1 1 1,
      variant_row ''S1'' ''chr2'' 7 ''T'' 1 1 1]"

definition small_metadata :: "row list" where
  "small_metadata =
     [metadata_row ''S1'' ''GBR'' ''EUR'' ''female'',
      metadata_row ''S3'' ''YRI'' ''AFR'' ''male'']"

definition small_clock :: "nat \<Rightarrow> datetime" where
  "small_clock n =
     \<lparr>year = 2017, month = 3, day = 9, hour = 14, minute = 5, second = 7 + n,
      microsecond = 0\<rparr>"

definition small_world :: world where
  "small_world =
     \<lparr>files = [''m.jinja'' \<mapsto> ''SELECT {{KEY_COLUMN}} , {{GENDER_COLUMN}} FROM m'',
               ''v.jinja'' \<mapsto> ''SELECT {{KEY_COLUMN}} , {{START_COLUMN}} FROM v''],
      render = render_words,
      BigQuerySource =
        (\<lambda>query. if query = ''SELECT key , gender FROM m'' then Inr small_metadata
                  else if query = ''SELECT key , start FROM v'' then Inr small_variants
                  else Inl (Raised ''invalid query'')),
      now = small_clock\<rparr>"

definition small_argv :: "flag list" where
  "small_argv = [Metadata ''m.jinja'', Input ''v.jinja'', Output ''gs://bucket/out'']"

definition small_dict :: "val \<rightharpoonup> row" where
  "small_dict = spec_table_to_dict ''key'' small_metadata"

definition small_example_fn :: "val \<Rightarrow> row list \<Rightarrow> (val \<rightharpoonup> row) \<Rightarrow> error + example" where
  "small_example_fn =
     spec_sample_to_example (spec_metadata_features spec_columns)
       (spec_variants_to_features (spec_contig_feature_name spec_columns)
          (spec_variant_to_words spec_columns True) [])"

definition small_job :: job where
  "small_job =
     \<lparr>output_dir = ''gs://bucket/out/20170309-140507'',
      save_main_session = True,
      autoscaling_algorithm = ''THROUGHPUT_BASED'',
      staging_location = ''gs://bucket/out/20170309-140507/tmp/staging'',
      temp_location = ''gs://bucket/out/20170309-140507/tmp'',
      job_name = ''preprocess-varianteatures-170309-140508''\<rparr>"

definition keyless_variants :: "row list" where
  "keyless_variants =
     [variant_row ''S1'' ''chr1'' 100 ''A'' 1 0 1,
      (variant_row ''S2'' ''chr1'' 100 ''A'' 1 1 1)(''key'' := None)]"

definition keyless_world :: world where
  "keyless_world = small_world\<lparr>BigQuerySource :=
     (\<lambda>query. if query = ''SELECT key , start FROM v'' then Inr keyless_variants
               else BigQuerySource small_world query)\<rparr>"

definition small_examples :: "example list" where
  "small_examples =
     [\<lparr>sample = Str ''S2'', variants = [(''chr1'', [''A_hom''])], population = ''NA'',
       super_population = ''NA'', gender = ''NA''\<rparr>,
      \<lparr>sample = Str ''S1'', variants = [(''chr1'', [''A_het'']), (''chr2'', [''T_hom''])],
       population = ''GBR'', super_population = ''EUR'', gender = ''female''\<rparr>]"

definition guarded_example_fn :: "val \<Rightarrow> row list \<Rightarrow> (val \<rightharpoonup> row) \<Rightarrow> error + example" where
  "guarded_example_fn key vals m =
     (if m (Str ''S3'') = None then Inl (Raised ''partial mapping'')
      else small_example_fn key vals m)"

text \<open>
  Two records are the same up to the order of tokens within a slot: the same sample key
  and metadata values, and in every slot the same tokens, each as often.
\<close>

definition tokens_at :: "(string \<times> string list) list \<Rightarrow> string \<Rightarrow> string multiset" where
  "tokens_at slots slot = mset (concat (map snd (filter (\<lambda>entry. fst entry = slot) slots)))"

definition same_record :: "example \<Rightarrow> example \<Rightarrow> bool" where
  "same_record a b =
     (sample a = sample b \<and> population a = population b
      \<and> super_population a = super_population b \<and> gender a = gender b
      \<and> list_all (\<lambda>slot. tokens_at (variants a) slot = tokens_at (variants b) slot)
           (map fst (variants a) @ map fst (variants b)))"

definition valid_datetime :: "datetime \<Rightarrow> bool" where
  "valid_datetime dt =
     (1 \<le> year dt \<and> year dt \<le> 9999 \<and> 1 \<le> month dt \<and> month dt \<le> 12
      \<and> 1 \<le> day dt \<and> day dt \<le> 31 \<and> hour dt < 24 \<and> minute dt < 60
      \<and> second dt < 60 \<and> microsecond dt < 1000000)"

definition at_second :: "datetime \<Rightarrow> nat \<times> nat \<times> nat \<times> nat \<times> nat \<times> nat" where
  "at_second dt = (year dt, month dt, day dt, hour dt, minute dt, second dt)"

definition small_options :: PreprocessOptions where
  "small_options =
     \<lparr>output' = ''gs://bucket/out'', input = ''v.jinja'', metadata = ''m.jinja'',
      add_hethom = True, bin_size = None\<rparr>"

definition binned_argv :: "flag list" where
  "binned_argv = small_argv @ [BinSize ''50'', NoHethomWords]"

definition binned_options :: PreprocessOptions where
  "binned_options = small_options\<lparr>add_hethom := False, bin_size := Some 50\<rparr>"

definition small_written :: tfrecords where
  "small_written =
     \<lparr>file_path_prefix = ''gs://bucket/out/20170309-140507/examples'',
      compression_type = GZIP, file_name_suffix = ''.tfrecord.gz'',
      records = [''S2|NA|NA|NA|chr1=A_hom,'',
                 ''S1|GBR|EUR|female|chr1=A_het,|chr2=T_hom,'']\<rparr>"

definition binned_example_fn :: "val \<Rightarrow> row list \<Rightarrow> (val \<rightharpoonup> row) \<Rightarrow> error + example" where
  "binned_example_fn =
     spec_sample_to_example (spec_metadata_features spec_columns)
       (spec_variants_to_features (spec_binned_feature_name spec_columns 50)
          (spec_variant_to_words spec_columns False) [])"

definition binned_written :: tfrecords where
  "binned_written =
     small_written\<lparr>records := [''S2|NA|NA|NA|chr1:2=A,'',
       ''S1|GBR|EUR|female|chr1:2=A,|chr2:0=T,'']\<rparr>"


definition negative_argv :: "flag list" where
  "negative_argv = small_argv @ [BinSize ''-5'']"


definition later_world :: world where
  "later_world = small_world\<lparr>now := (\<lambda>n. (small_clock n)\<lparr>minute := 6\<rparr>)\<rparr>"

definition later_job :: job where
  "later_job =
     \<lparr>output_dir = ''gs://bucket/out/20170309-140607'',
      save_main_session = True,
      autoscaling_algorithm = ''THROUGHPUT_BASED'',
      staging_location = ''gs://bucket/out/20170309-140607/tmp/staging'',
      temp_location = ''gs://bucket/out/20170309-140607/tmp'',
      job_name = ''preprocess-varianteatures-170309-140608''\<rparr>"

definition later_written :: tfrecords where
  "later_written =
     small_written\<lparr>file_path_prefix := ''gs://bucket/out/20170309-140607/examples''\<rparr>"

section \<open>Properties of the transforms\<close>

lemma beam_Map_Inr_iff:
  "beam_Map fn xs = Inr ys \<longleftrightarrow> map fn xs = map Inr ys"
proof (induction xs arbitrary: ys)
  case Nil
  then show ?case by auto
next
  case (Cons x xs)
  show ?case
  proof (cases "fn x")
    case (Inl e)
    then show ?thesis by (cases ys) auto
  next
    case (Inr y)
    show ?thesis
    proof (cases "beam_Map fn xs")
      case (Inl e)
      with Cons.IH have "\<And>zs. map fn xs \<noteq> map Inr zs" by auto
      with Inl Inr show ?thesis by (cases ys) auto
    next
      case (Inr zs)
      with Cons.IH have "map fn xs = map Inr zs" by auto
      with Inr \<open>fn x = Inr y\<close> show ?thesis
        by (cases ys) (auto simp: inj_map_eq_map [OF inj_Inr])
    qed
  qed
qed

lemma BucketVariants_all:
  assumes "\<forall>row \<in> set rows. row (KEY_COLUMN c) \<noteq> None"
  shows "beam_Map (BucketVariants c) rows =
           Inr (map (\<lambda>row. (the (row (KEY_COLUMN c)), row)) rows)"
  using assms by (induction rows) (auto simp: BucketVariants_def)

lemma BucketVariants_missing:
  assumes "\<exists>row \<in> set rows. row (KEY_COLUMN c) = None"
  shows "beam_Map (BucketVariants c) rows = Inl (KeyError (KEY_COLUMN c))"
  using assms
proof (induction rows)
  case Nil
  then show ?case by simp
next
  case (Cons r rows)
  show ?case
  proof (cases "r (KEY_COLUMN c)")
    case None
    then show ?thesis by (simp add: BucketVariants_def)
  next
    case (Some k)
    with Cons.prems have "\<exists>row \<in> set rows. row (KEY_COLUMN c) = None" by auto
    with Cons.IH Some show ?thesis by (simp add: BucketVariants_def)
  qed
qed

lemma GroupByKey_keys_distinct: "distinct (map fst (GroupByKey kvs))"
  by (simp add: GroupByKey_def comp_def)

lemma GroupByKey_keys: "fst ` set (GroupByKey kvs) = fst ` set kvs"
  by (force simp: GroupByKey_def image_iff)

lemma GroupByKey_group:
  "(k, vs) \<in> set (GroupByKey kvs) \<Longrightarrow> vs = map snd (filter (\<lambda>kv. fst kv = k) kvs)"
  by (auto simp: GroupByKey_def)

lemma keyed_group:
  "map snd (filter (\<lambda>kv. fst kv = k) (map (\<lambda>row. (the (row col), row)) rows)) =
     filter (\<lambda>row. the (row col) = k) rows"
  by (induction rows) auto

section \<open>Grouping by sample\<close>

lemma filter_key_cong:
  assumes "\<forall>row \<in> set rows. row col \<noteq> None"
  shows "filter (\<lambda>row. the (row col) = k) rows = filter (\<lambda>row. row col = Some k) rows"
  using assms by (intro filter_cong) auto

lemma keys_of_keyed:
  assumes "\<forall>row \<in> set rows. row col \<noteq> None"
  shows "fst ` set (map (\<lambda>row. (the (row col), row)) rows) =
           {key. \<exists>row \<in> set rows. row col = Some key}"
  using assms by force

lemma variants_to_examples_calls:
  assumes "\<forall>row \<in> set rows. row (KEY_COLUMN c) \<noteq> None"
  shows "\<exists>calls.
           variants_to_examples c rows md f = beam_Map (\<lambda>(key, vals). f key vals md) calls
         \<and> distinct (map fst calls)
         \<and> fst ` set calls = {key. \<exists>row \<in> set rows. row (KEY_COLUMN c) = Some key}
         \<and> (\<forall>(key, vals) \<in> set calls.
               vals = filter (\<lambda>row. row (KEY_COLUMN c) = Some key) rows)"
proof -
  let ?kvs = "map (\<lambda>row. (the (row (KEY_COLUMN c)), row)) rows"
  let ?calls = "GroupByKey ?kvs"
  have run: "variants_to_examples c rows md f = beam_Map (\<lambda>(key, vals). f key vals md) ?calls"
    by (simp add: variants_to_examples_def and_then_def BucketVariants_all [OF assms])
  have keys: "fst ` set ?calls = {key. \<exists>row \<in> set rows. row (KEY_COLUMN c) = Some key}"
    using keys_of_keyed [OF assms] by (simp only: GroupByKey_keys)
  have groups: "\<forall>(key, vals) \<in> set ?calls.
                  vals = filter (\<lambda>row. row (KEY_COLUMN c) = Some key) rows"
  proof (clarify)
    fix key vals assume "(key, vals) \<in> set ?calls"
    then have "vals = map snd (filter (\<lambda>kv. fst kv = key) ?kvs)"
      by (rule GroupByKey_group)
    then show "vals = filter (\<lambda>row. row (KEY_COLUMN c) = Some key) rows"
      by (simp only: keyed_group filter_key_cong [OF assms])
  qed
  from run keys groups GroupByKey_keys_distinct [of ?kvs] show ?thesis by blast
qed

lemma variants_to_examples_Inr_keys:
  assumes "variants_to_examples c rows md f = Inr examples"
  shows "\<forall>row \<in> set rows. row (KEY_COLUMN c) \<noteq> None"
proof (rule ccontr)
  assume "\<not> ?thesis"
  then have "\<exists>row \<in> set rows. row (KEY_COLUMN c) = None" by auto
  then have "variants_to_examples c rows md f = Inl (KeyError (KEY_COLUMN c))"
    by (simp add: variants_to_examples_def and_then_def BucketVariants_missing)
  with assms show False by simp
qed

lemma beam_Map_Inr_set:
  fixes fn :: "'a \<Rightarrow> error + 'b"
  assumes "beam_Map fn xs = Inr ys"
  shows "set ys = {y. \<exists>x \<in> set xs. fn x = Inr y}"
proof -
  from assms have m: "map fn xs = map Inr ys" by (simp only: beam_Map_Inr_iff)
  have s: "fn ` set xs = Inr ` set ys"
    using arg_cong [OF m, of set] by simp
  show ?thesis
  proof (rule set_eqI)
    fix y
    have "y \<in> set ys \<longleftrightarrow> (Inr y :: error + 'b) \<in> Inr ` set ys" by blast
    also have "\<dots> \<longleftrightarrow> Inr y \<in> fn ` set xs" by (simp only: s)
    also have "\<dots> \<longleftrightarrow> (\<exists>x \<in> set xs. fn x = Inr y)" by (simp only: image_iff) metis
    finally show "y \<in> set ys \<longleftrightarrow> y \<in> {y. \<exists>x \<in> set xs. fn x = Inr y}" by simp
  qed
qed

lemma beam_Map_total:
  assumes "\<forall>x \<in> set xs. \<exists>y. fn x = Inr y"
  shows "\<exists>ys. beam_Map fn xs = Inr ys"
  using assms by (induction xs) auto

lemma beam_Map_Inl:
  assumes "beam_Map fn xs = Inl e"
  shows "\<exists>x \<in> set xs. fn x = Inl e"
  using assms by (induction xs) (auto split: sum.splits)

text \<open>
  Claim C1. When every variant row has the sample-key column, there is a list of calls,
  one per distinct sample key of the rows: the keys of the calls are pairwise
  different, they are exactly the keys that occur in the rows, and each call carries
  all rows of its key (those whose key column equals the key). What
  \<open>variants_to_examples\<close> returns is the result of the assembler on each of these
  calls, applied to the key, the group and the metadata mapping: as many examples as
  calls, the example of a call being what the assembler returned for it; and when it
  fails, the error is that of the assembler on one of the calls.
\<close>

theorem variants_to_examples_once_per_key:
  assumes "\<forall>row \<in> set rows. row (KEY_COLUMN c) \<noteq> None"
  shows "\<exists>calls.
           distinct (map fst calls)
         \<and> fst ` set calls = {key. \<exists>row \<in> set rows. row (KEY_COLUMN c) = Some key}
         \<and> (\<forall>(key, vals) \<in> set calls.
               vals = filter (\<lambda>row. row (KEY_COLUMN c) = Some key) rows)
         \<and> (\<forall>examples. variants_to_examples c rows md f = Inr examples \<longrightarrow>
               map (\<lambda>(key, vals). f key vals md) calls = map Inr examples)
         \<and> (\<forall>e. variants_to_examples c rows md f = Inl e \<longrightarrow>
               (\<exists>(key, vals) \<in> set calls. f key vals md = Inl e))"
proof -
  let ?g = "\<lambda>(key, vals). f key vals md"
  from variants_to_examples_calls [OF assms, of md f] obtain calls where
    run: "variants_to_examples c rows md f = beam_Map ?g calls"
    and dist: "distinct (map fst calls)"
    and keys: "fst ` set calls = {key. \<exists>row \<in> set rows. row (KEY_COLUMN c) = Some key}"
    and groups: "\<forall>(key, vals) \<in> set calls.
                   vals = filter (\<lambda>row. row (KEY_COLUMN c) = Some key) rows"
    by blast
  have results: "map ?g calls = map Inr examples"
    if "variants_to_examples c rows md f = Inr examples" for examples
  proof -
    from that run have "beam_Map ?g calls = Inr examples" by simp
    then show ?thesis by (simp only: beam_Map_Inr_iff)
  qed
  have failure: "\<exists>(key, vals) \<in> set calls. f key vals md = Inl e"
    if "variants_to_examples c rows md f = Inl e" for e
  proof -
    from that run have "beam_Map ?g calls = Inl e" by simp
    from beam_Map_Inl [OF this] obtain x where "x \<in> set calls" "?g x = Inl e" by blast
    then show ?thesis by (cases x) auto
  qed
  from dist keys groups results failure show ?thesis by blast
qed

lemma beam_Map_cong:
  assumes "\<forall>x \<in> set xs. fn x = gn x"
  shows "beam_Map fn xs = beam_Map gn xs"
  using assms by (induction xs) (auto split: sum.splits)

lemma beam_Map_Inr_all:
  fixes fn :: "'a \<Rightarrow> error + 'b"
  assumes "beam_Map fn xs = Inr ys" and "x \<in> set xs"
  shows "\<exists>y \<in> set ys. fn x = Inr y"
proof -
  from assms(1) have m: "map fn xs = map Inr ys" by (simp only: beam_Map_Inr_iff)
  have "fn ` set xs = Inr ` set ys"
    using arg_cong [OF m, of set] by simp
  with assms(2) have "fn x \<in> Inr ` set ys" by blast
  then show ?thesis by auto
qed

lemma order_transfer:
  fixes f :: "val \<Rightarrow> row list \<Rightarrow> 'md \<Rightarrow> error + 'ex"
  assumes perm: "mset rows = mset rows'"
    and pure: "\<forall>key vals vals'. mset vals = mset vals' \<longrightarrow>
                 (\<forall>ex. f key vals md = Inr ex \<longrightarrow> (\<exists>ex'. f key vals' md = Inr ex' \<and> R ex ex'))"
    and ok: "variants_to_examples c rows md f = Inr outs"
  shows "\<exists>outs'. variants_to_examples c rows' md f = Inr outs'
           \<and> (\<forall>ex \<in> set outs. \<exists>ex' \<in> set outs'. R ex ex')
           \<and> (\<forall>ex' \<in> set outs'. \<exists>ex \<in> set outs. R ex ex')"
proof -
  let ?K = "KEY_COLUMN c"
  let ?g = "\<lambda>(key, vals). f key vals md"
  have sets: "set rows = set rows'" using perm by (rule mset_eq_setD)
  have present: "\<forall>row \<in> set rows. row ?K \<noteq> None"
    using ok by (rule variants_to_examples_Inr_keys)
  then have present': "\<forall>row \<in> set rows'. row ?K \<noteq> None" using sets by simp
  from variants_to_examples_calls [OF present, of md f] obtain calls where
    run: "variants_to_examples c rows md f = beam_Map ?g calls"
    and keys: "fst ` set calls = {key. \<exists>row \<in> set rows. row ?K = Some key}"
    and groups: "\<forall>(key, vals) \<in> set calls. vals = filter (\<lambda>row. row ?K = Some key) rows"
    by blast
  from variants_to_examples_calls [OF present', of md f] obtain calls' where
    run': "variants_to_examples c rows' md f = beam_Map ?g calls'"
    and keys': "fst ` set calls' = {key. \<exists>row \<in> set rows'. row ?K = Some key}"
    and groups': "\<forall>(key, vals) \<in> set calls'. vals = filter (\<lambda>row. row ?K = Some key) rows'"
    by blast
  have same_keys: "fst ` set calls = fst ` set calls'"
    using keys keys' sets by simp
  have fperm: "\<And>key. mset (filter (\<lambda>row. row ?K = Some key) rows) =
                      mset (filter (\<lambda>row. row ?K = Some key) rows')"
    using perm by (simp only: mset_filter)
  have match: "\<exists>vals'. (key, vals') \<in> set calls' \<and> mset vals = mset vals'"
    if "(key, vals) \<in> set calls" for key vals
  proof -
    from that have "key \<in> fst ` set calls'" using same_keys by force
    then obtain vals' where in': "(key, vals') \<in> set calls'" by auto
    from that groups have "vals = filter (\<lambda>row. row ?K = Some key) rows" by auto
    moreover from in' groups' have "vals' = filter (\<lambda>row. row ?K = Some key) rows'" by auto
    ultimately have "mset vals = mset vals'" using fperm by simp
    with in' show ?thesis by blast
  qed
  have match': "\<exists>vals. (key, vals) \<in> set calls \<and> mset vals = mset vals'"
    if "(key, vals') \<in> set calls'" for key vals'
  proof -
    from that have "key \<in> fst ` set calls" using same_keys by force
    then obtain vals where in': "(key, vals) \<in> set calls" by auto
    from that groups' have "vals' = filter (\<lambda>row. row ?K = Some key) rows'" by auto
    moreover from in' groups have "vals = filter (\<lambda>row. row ?K = Some key) rows" by auto
    ultimately have "mset vals = mset vals'" using fperm by simp
    with in' show ?thesis by blast
  qed
  from run ok have bm: "beam_Map ?g calls = Inr outs" by simp
  have succ': "\<exists>ex'. ?g x' = Inr ex' \<and> (\<exists>ex \<in> set outs. R ex ex')" if "x' \<in> set calls'" for x'
  proof -
    obtain key vals' where x': "x' = (key, vals')" by (cases x')
    with that match' obtain vals where v: "(key, vals) \<in> set calls" "mset vals = mset vals'"
      by blast
    from beam_Map_Inr_all [OF bm v(1)] obtain ex where ex: "ex \<in> set outs" "f key vals md = Inr ex"
      by auto
    from pure v(2) ex(2) obtain ex' where "f key vals' md = Inr ex'" "R ex ex'" by blast
    with x' ex(1) show ?thesis by auto
  qed
  then have "\<forall>x' \<in> set calls'. \<exists>y. ?g x' = Inr y" by blast
  from beam_Map_total [OF this] obtain outs' where bm': "beam_Map ?g calls' = Inr outs'" by blast
  have bwd: "\<forall>ex' \<in> set outs'. \<exists>ex \<in> set outs. R ex ex'"
  proof
    fix ex' assume "ex' \<in> set outs'"
    then obtain x' where "x' \<in> set calls'" "?g x' = Inr ex'"
      using beam_Map_Inr_set [OF bm'] by auto
    with succ' [of x'] show "\<exists>ex \<in> set outs. R ex ex'" by auto
  qed
  have fwd: "\<forall>ex \<in> set outs. \<exists>ex' \<in> set outs'. R ex ex'"
  proof
    fix ex assume "ex \<in> set outs"
    then obtain x where x: "x \<in> set calls" "?g x = Inr ex"
      using beam_Map_Inr_set [OF bm] by auto
    obtain key vals where kx: "x = (key, vals)" by (cases x)
    with x match obtain vals' where v: "(key, vals') \<in> set calls'" "mset vals = mset vals'"
      by blast
    from x kx have "f key vals md = Inr ex" by simp
    with pure v(2) obtain ex' where e': "f key vals' md = Inr ex'" "R ex ex'" by blast
    from beam_Map_Inr_all [OF bm' v(1)] e'(1) have "ex' \<in> set outs'" by auto
    with e'(2) show "\<exists>ex' \<in> set outs'. R ex ex'" by blast
  qed
  from run' bm' fwd bwd show ?thesis by auto
qed

lemma variants_to_examples_cong:
  assumes "\<forall>key vals. f key vals md = g key vals md"
  shows "variants_to_examples c rows md f = variants_to_examples c rows md g"
proof -
  have "(\<lambda>(key, vals). f key vals md) = (\<lambda>(key, vals). g key vals md)"
    using assms by auto
  then show ?thesis by (simp add: variants_to_examples_def)
qed

text \<open>
  Claim C2. When \<open>variants_to_examples\<close> returns its examples and the assembler puts the
  key it is given into its record, the sample keys of the examples are exactly the
  sample keys of the variant rows, each once. The metadata mapping has no part in it: a
  key without a variant row has no example, whatever the mapping holds.
\<close>

theorem output_keys_are_variant_keys:
  assumes ok: "variants_to_examples c rows md f = Inr examples"
    and keyed: "\<forall>key vals m ex. f key vals m = Inr ex \<longrightarrow> key_of ex = key"
  shows "key_of ` set examples = {key. \<exists>row \<in> set rows. row (KEY_COLUMN c) = Some key}
       \<and> distinct (map key_of examples)
       \<and> (\<forall>key. (\<forall>row \<in> set rows. row (KEY_COLUMN c) \<noteq> Some key) \<longrightarrow>
                 key \<notin> key_of ` set examples)"
proof -
  have present: "\<forall>row \<in> set rows. row (KEY_COLUMN c) \<noteq> None"
    using ok by (rule variants_to_examples_Inr_keys)
  from variants_to_examples_calls [OF present, of md f] obtain calls where
    run: "variants_to_examples c rows md f = beam_Map (\<lambda>(key, vals). f key vals md) calls"
    and dist: "distinct (map fst calls)"
    and keys: "fst ` set calls = {key. \<exists>row \<in> set rows. row (KEY_COLUMN c) = Some key}"
    by blast
  from run ok have "beam_Map (\<lambda>(key, vals). f key vals md) calls = Inr examples"
    by simp
  then have m: "map (\<lambda>(key, vals). f key vals md) calls = map Inr examples"
    by (simp only: beam_Map_Inr_iff)
  have "map key_of examples = map fst calls"
  proof (rule nth_equalityI)
    show "length (map key_of examples) = length (map fst calls)"
      using arg_cong [OF m, of length] by simp
  next
    fix i assume "i < length (map key_of examples)"
    then have i: "i < length examples" "i < length calls"
      using arg_cong [OF m, of length] by simp_all
    from m have "map (\<lambda>(key, vals). f key vals md) calls ! i = map Inr examples ! i" by simp
    with i have "(\<lambda>(key, vals). f key vals md) (calls ! i) = Inr (examples ! i)" by simp
    then have "f (fst (calls ! i)) (snd (calls ! i)) md = Inr (examples ! i)"
      by (simp add: case_prod_beta)
    with keyed have "key_of (examples ! i) = fst (calls ! i)" by blast
    with i show "map key_of examples ! i = map fst calls ! i" by simp
  qed
  then have eq: "map key_of examples = map fst calls" .
  have "key_of ` set examples = set (map key_of examples)" by simp
  also have "\<dots> = fst ` set calls" by (simp only: eq) simp
  finally have k: "key_of ` set examples = {key. \<exists>row \<in> set rows. row (KEY_COLUMN c) = Some key}"
    using keys by simp
  from dist eq have d: "distinct (map key_of examples)" by simp
  from k d show ?thesis by auto
qed

text \<open>
  Claim C6. When a variant row that BigQuery returns lacks the sample-key column, the
  key extraction of \<open>variants_to_examples\<close> raises \<open>KeyError\<close> whatever the other rows
  are, and \<open>run\<close> ends with an error instead of a result: with that \<open>KeyError\<close>, or
  with the error of the metadata query when that one failed first. No record is written.
\<close>

theorem missing_key_aborts:
  assumes start: "startup c t w argv = Inr (options, metadata_query, data_query, f)"
    and read: "BigQuerySource w data_query = Inr rows"
    and missing: "\<exists>row \<in> set rows. row (KEY_COLUMN c) = None"
  shows "variants_to_examples c rows md f = Inl (KeyError (KEY_COLUMN c))
       \<and> (run c t w argv = Inl (KeyError (KEY_COLUMN c))
          \<or> (\<exists>e. BigQuerySource w metadata_query = Inl e \<and> run c t w argv = Inl e))"
proof -
  have v: "\<And>m. variants_to_examples c rows m f = Inl (KeyError (KEY_COLUMN c))"
    by (simp add: variants_to_examples_def and_then_def BucketVariants_missing [OF missing])
  show ?thesis
  proof (cases "BigQuerySource w metadata_query")
    case (Inl e)
    then have "run c t w argv = Inl e"
      by (simp add: run_def start pipeline_def and_then_def)
    with Inl v show ?thesis by simp
  next
    case (Inr metadata_rows)
    then have "run c t w argv = Inl (KeyError (KEY_COLUMN c))"
      by (simp add: run_def start pipeline_def and_then_def read v CombineGlobally_def
            AsSingleton_def)
    with v show ?thesis by simp
  qed
qed

lemma pipeline_read:
  assumes "BigQuerySource w metadata_query = Inr metadata_rows"
    and "BigQuerySource w data_query = Inr rows"
  shows "pipeline c t w options metadata_query data_query h =
           and_then (variants_to_examples c rows
                       (TableToDictCombineFn t (KEY_COLUMN c) metadata_rows) h) (\<lambda>examples.
             Inr \<lparr>file_path_prefix = os_path_join (output_dir options) [''examples''],
                  compression_type = GZIP,
                  file_name_suffix = ''.tfrecord.gz'',
                  records = map (SerializeToString t) examples\<rparr>)"
  using assms by (simp add: pipeline_def and_then_def CombineGlobally_def AsSingleton_def)

text \<open>
  Claim C7. Let the metadata query return \<open>metadata_rows\<close> and the data query rows that
  all have the sample key. The side input of the pipeline is the one element of the
  global combine over all of \<open>metadata_rows\<close>. There is one call per distinct sample key
  of the variant rows, each with all rows of its key, and the records the pipeline
  writes are the serialised results of the assembler on these calls, every call with
  that one mapping as its third argument; a failure is the assembler's failure on one
  of the calls with that mapping. No other mapping reaches the assembler: an assembler
  that agrees with it on that mapping gives the same pipeline result.
\<close>

theorem side_input_is_the_global_combine:
  assumes read_metadata: "BigQuerySource w metadata_query = Inr metadata_rows"
    and read_variants: "BigQuerySource w data_query = Inr rows"
    and keyed: "\<forall>row \<in> set rows. row (KEY_COLUMN c) \<noteq> None"
  shows "\<exists>calls.
           distinct (map fst calls)
         \<and> fst ` set calls = {key. \<exists>row \<in> set rows. row (KEY_COLUMN c) = Some key}
         \<and> (\<forall>(key, vals) \<in> set calls.
               vals = filter (\<lambda>row. row (KEY_COLUMN c) = Some key) rows)
         \<and> (\<forall>out. pipeline c t w options metadata_query data_query f = Inr out \<longrightarrow>
               (\<exists>examples.
                  map (\<lambda>(key, vals).
                         f key vals (TableToDictCombineFn t (KEY_COLUMN c) metadata_rows))
                    calls = map Inr examples
                \<and> records out = map (SerializeToString t) examples))
         \<and> (\<forall>e. pipeline c t w options metadata_query data_query f = Inl e \<longrightarrow>
               (\<exists>(key, vals) \<in> set calls.
                  f key vals (TableToDictCombineFn t (KEY_COLUMN c) metadata_rows) = Inl e))
         \<and> (\<forall>g. (\<forall>key vals.
                    g key vals (TableToDictCombineFn t (KEY_COLUMN c) metadata_rows) =
                    f key vals (TableToDictCombineFn t (KEY_COLUMN c) metadata_rows)) \<longrightarrow>
                pipeline c t w options metadata_query data_query g =
                pipeline c t w options metadata_query data_query f)"
proof -
  let ?M = "TableToDictCombineFn t (KEY_COLUMN c) metadata_rows"
  let ?g = "\<lambda>(key, vals). f key vals ?M"
  note unfold = pipeline_read [OF read_metadata read_variants]
  from variants_to_examples_calls [OF keyed, of ?M f] obtain calls where
    run: "variants_to_examples c rows ?M f = beam_Map ?g calls"
    and dist: "distinct (map fst calls)"
    and keys: "fst ` set calls = {key. \<exists>row \<in> set rows. row (KEY_COLUMN c) = Some key}"
    and groups: "\<forall>(key, vals) \<in> set calls.
                   vals = filter (\<lambda>row. row (KEY_COLUMN c) = Some key) rows"
    by blast
  have written: "\<exists>examples. map ?g calls = map Inr examples
                   \<and> records out = map (SerializeToString t) examples"
    if "pipeline c t w options metadata_query data_query f = Inr out" for out
  proof (cases "variants_to_examples c rows ?M f")
    case (Inl e)
    with that show ?thesis by (simp add: unfold and_then_def)
  next
    case (Inr examples)
    with run have "beam_Map ?g calls = Inr examples" by simp
    then have "map ?g calls = map Inr examples" by (simp only: beam_Map_Inr_iff)
    moreover from that Inr have "records out = map (SerializeToString t) examples"
      by (auto simp: unfold and_then_def)
    ultimately show ?thesis by blast
  qed
  have failure: "\<exists>(key, vals) \<in> set calls. f key vals ?M = Inl e"
    if "pipeline c t w options metadata_query data_query f = Inl e" for e
  proof (cases "variants_to_examples c rows ?M f")
    case (Inl e')
    with that have "e' = e" by (simp add: unfold and_then_def)
    with Inl run have "beam_Map ?g calls = Inl e" by simp
    from beam_Map_Inl [OF this] obtain x where "x \<in> set calls" "?g x = Inl e" by blast
    then show ?thesis by (cases x) auto
  next
    case (Inr examples)
    with that show ?thesis by (simp add: unfold and_then_def)
  qed
  have only: "pipeline c t w options metadata_query data_query g =
              pipeline c t w options metadata_query data_query f"
    if "\<forall>key vals. g key vals ?M = f key vals ?M" for g
  proof -
    from that have "variants_to_examples c rows ?M g = variants_to_examples c rows ?M f"
      by (rule variants_to_examples_cong)
    then show ?thesis by (simp only: unfold)
  qed
  from dist keys groups written failure only show ?thesis by blast
qed

text \<open>
  Claim C9. Let two arrival orders of the same multiset of variant rows be given, with
  the same metadata mapping and the same assembler, and let the assembler depend on
  the order of a group only up to a relation \<open>R\<close> on records (such as equality up to
  the order of tokens within a slot). Then one run returns records exactly when the
  other does, and every record of either run is related by \<open>R\<close> to a record of the
  other.
\<close>

theorem output_set_independent_of_arrival_order:
  fixes f :: "val \<Rightarrow> row list \<Rightarrow> 'md \<Rightarrow> error + 'ex"
  assumes perm: "mset rows = mset rows'"
    and pure: "\<forall>key vals vals'. mset vals = mset vals' \<longrightarrow>
                 (\<forall>ex. f key vals md = Inr ex \<longrightarrow> (\<exists>ex'. f key vals' md = Inr ex' \<and> R ex ex'))"
  shows "(\<forall>outs. variants_to_examples c rows md f = Inr outs \<longrightarrow>
            (\<exists>outs'. variants_to_examples c rows' md f = Inr outs'
               \<and> (\<forall>ex \<in> set outs. \<exists>ex' \<in> set outs'. R ex ex')
               \<and> (\<forall>ex' \<in> set outs'. \<exists>ex \<in> set outs. R ex ex')))
       \<and> (\<forall>e. variants_to_examples c rows md f = Inl e \<longrightarrow>
            (\<exists>e'. variants_to_examples c rows' md f = Inl e'))"
proof (intro conjI allI impI)
  fix outs assume "variants_to_examples c rows md f = Inr outs"
  from order_transfer [OF perm pure this]
  show "\<exists>outs'. variants_to_examples c rows' md f = Inr outs'
               \<and> (\<forall>ex \<in> set outs. \<exists>ex' \<in> set outs'. R ex ex')
               \<and> (\<forall>ex' \<in> set outs'. \<exists>ex \<in> set outs. R ex ex')" .
next
  fix e assume fail: "variants_to_examples c rows md f = Inl e"
  show "\<exists>e'. variants_to_examples c rows' md f = Inl e'"
  proof (cases "variants_to_examples c rows' md f")
    case (Inl e')
    then show ?thesis by blast
  next
    case (Inr outs')
    have pure': "\<forall>key vals vals'. mset vals = mset vals' \<longrightarrow>
                 (\<forall>ex. f key vals md = Inr ex \<longrightarrow> (\<exists>ex'. f key vals' md = Inr ex' \<and> True))"
      using pure by blast
    from order_transfer [OF perm [symmetric] pure' Inr] fail show ?thesis by auto
  qed
qed

section \<open>The claims on the small world\<close>

lemma small_variants_keyed:
  "\<forall>row \<in> set small_variants. row (KEY_COLUMN spec_columns) \<noteq> None"
  by (simp add: small_variants_def variant_row_def spec_columns_def)

lemma small_run_examples:
  "variants_to_examples spec_columns small_variants small_dict small_example_fn =
     Inr small_examples"
  by code_simp

lemma small_example_fn_keyed:
  "\<forall>key vals m ex. small_example_fn key vals m = Inr ex \<longrightarrow> sample ex = key"
  by (auto simp: small_example_fn_def spec_sample_to_example_def and_then_def
           split: sum.splits prod.splits)

lemma no_variant_of_S3:
  "\<forall>row \<in> set small_variants. row (KEY_COLUMN spec_columns) \<noteq> Some (Str ''S3'')"
  by (simp add: small_variants_def variant_row_def spec_columns_def)

theorem output_keys_are_variant_keys_witness:
  "variants_to_examples spec_columns small_variants small_dict small_example_fn =
     Inr small_examples
   \<and> small_dict (Str ''S3'') \<noteq> None
   \<and> sample ` set small_examples =
       {key. \<exists>row \<in> set small_variants. row (KEY_COLUMN spec_columns) = Some key}
   \<and> distinct (map sample small_examples)
   \<and> Str ''S3'' \<notin> sample ` set small_examples"
proof -
  have "small_dict (Str ''S3'') \<noteq> None"
    by (simp add: small_dict_def spec_table_to_dict_def small_metadata_def metadata_row_def)
  with output_keys_are_variant_keys [OF small_run_examples small_example_fn_keyed]
    small_run_examples no_variant_of_S3
  show ?thesis by blast
qed

lemma keyless_startup:
  "startup spec_columns spec_trainer keyless_world small_argv =
     Inr (small_job, ''SELECT key , gender FROM m'', ''SELECT key , start FROM v'',
          small_example_fn)"
  by (simp add: startup_def parse_args_def small_argv_def defaults_def required_def
        and_then_def job_options_def keyless_world_def small_world_def small_clock_def
        strftime_def directive_def pad2_def digit_def str_nat.simps os_path_join_def join2_def
        render_query_def render_words_def render_word_def
        METADATA_QUERY_REPLACEMENTS_def DATA_QUERY_REPLACEMENTS_def spec_columns_def
        sample_to_example_fn_def variants_to_features_fn_def variant_to_feature_name_fn_def
        spec_trainer_def small_example_fn_def small_job_def)

lemma keyless_read:
  "BigQuerySource keyless_world ''SELECT key , start FROM v'' = Inr keyless_variants"
  by (simp add: keyless_world_def)

lemma keyless_missing:
  "\<exists>row \<in> set keyless_variants. row (KEY_COLUMN spec_columns) = None"
  by (simp add: keyless_variants_def spec_columns_def)

theorem missing_key_aborts_witness:
  "startup spec_columns spec_trainer keyless_world small_argv =
     Inr (small_job, ''SELECT key , gender FROM m'', ''SELECT key , start FROM v'',
          small_example_fn)
   \<and> BigQuerySource keyless_world ''SELECT key , start FROM v'' = Inr keyless_variants
   \<and> (\<exists>row \<in> set keyless_variants. row (KEY_COLUMN spec_columns) = None)
   \<and> variants_to_examples spec_columns keyless_variants small_dict small_example_fn =
       Inl (KeyError (KEY_COLUMN spec_columns))
   \<and> (run spec_columns spec_trainer keyless_world small_argv =
         Inl (KeyError (KEY_COLUMN spec_columns))
      \<or> (\<exists>e. BigQuerySource keyless_world ''SELECT key , gender FROM m'' = Inl e
             \<and> run spec_columns spec_trainer keyless_world small_argv = Inl e))"
  using missing_key_aborts [OF keyless_startup keyless_read keyless_missing, of small_dict]
    keyless_startup keyless_read keyless_missing by blast

lemma small_metadata_read:
  "BigQuerySource small_world ''SELECT key , gender FROM m'' = Inr small_metadata"
  by (simp add: small_world_def)

lemma small_dict_complete:
  "TableToDictCombineFn spec_trainer (KEY_COLUMN spec_columns) small_metadata (Str ''S3'') \<noteq> None"
  by (simp add: spec_trainer_def spec_columns_def spec_table_to_dict_def small_metadata_def
        metadata_row_def)

lemma spec_variants_to_features_ok:
  "(\<exists>slots'. spec_variants_to_features name_fn words_fn slots vals = Inr slots') \<longleftrightarrow>
     (\<forall>v \<in> set vals. (\<exists>s. name_fn v = Inr s) \<and> (\<exists>t. words_fn v = Inr t))"
proof (induction vals arbitrary: slots)
  case Nil
  then show ?case by simp
next
  case (Cons v vals)
  show ?case
  proof (cases "name_fn v")
    case (Inl e)
    then show ?thesis by (simp add: and_then_def)
  next
    case n: (Inr s)
    show ?thesis
    proof (cases "words_fn v")
      case (Inl e)
      with n show ?thesis by (simp add: and_then_def)
    next
      case (Inr t)
      with n Cons.IH [of "append_token slots s t"] show ?thesis by (simp add: and_then_def)
    qed
  qed
qed

lemma tokens_at_append_token:
  "tokens_at (append_token slots s t) slot =
     tokens_at slots slot + (if slot = s then {#t#} else {#})"
  by (induction slots) (auto simp: tokens_at_def)

lemma spec_variants_to_features_tokens:
  assumes "spec_variants_to_features name_fn words_fn slots vals = Inr slots'"
  shows "tokens_at slots' slot =
           tokens_at slots slot
           + (\<Sum>v\<leftarrow>vals. case name_fn v of
                 Inl e \<Rightarrow> {#}
               | Inr s \<Rightarrow> (case words_fn v of
                    Inl e \<Rightarrow> {#}
                  | Inr t \<Rightarrow> if slot = s then {#t#} else {#}))"
  using assms
proof (induction vals arbitrary: slots)
  case Nil
  then show ?case by simp
next
  case (Cons v vals)
  from Cons.prems obtain s where s: "name_fn v = Inr s"
    by (cases "name_fn v") (simp_all add: and_then_def)
  from Cons.prems s obtain t where t: "words_fn v = Inr t"
    by (cases "words_fn v") (simp_all add: and_then_def)
  from Cons.prems s t
  have "spec_variants_to_features name_fn words_fn (append_token slots s t) vals = Inr slots'"
    by (simp add: and_then_def)
  from Cons.IH [OF this] s t show ?case
    by (simp add: tokens_at_append_token)
qed

lemma sum_list_mset_cong:
  fixes g :: "'a \<Rightarrow> 'b multiset"
  assumes "mset xs = mset ys"
  shows "(\<Sum>x\<leftarrow>xs. g x) = (\<Sum>x\<leftarrow>ys. g x)"
proof -
  have "(\<Sum>x\<leftarrow>xs. g x) = sum_mset (image_mset g (mset xs))"
    using sum_mset_sum_list [of "map g xs"] by simp
  also have "\<dots> = sum_mset (image_mset g (mset ys))" by (simp only: assms)
  also have "\<dots> = (\<Sum>x\<leftarrow>ys. g x)"
    using sum_mset_sum_list [of "map g ys"] by simp
  finally show ?thesis .
qed

lemma small_example_fn_order:
  "\<forall>key vals vals'. mset vals = mset vals' \<longrightarrow>
     (\<forall>ex. small_example_fn key vals small_dict = Inr ex \<longrightarrow>
        (\<exists>ex'. small_example_fn key vals' small_dict = Inr ex' \<and> same_record ex ex'))"
proof (intro allI impI)
  fix key vals vals' ex
  let ?nf = "spec_contig_feature_name spec_columns"
  let ?wf = "spec_variant_to_words spec_columns True"
  assume perm: "mset vals = mset vals'" and ok: "small_example_fn key vals small_dict = Inr ex"
  from ok obtain slots where s: "spec_variants_to_features ?nf ?wf [] vals = Inr slots"
    by (auto simp: small_example_fn_def spec_sample_to_example_def and_then_def split: sum.splits)
  then have "\<forall>v \<in> set vals. (\<exists>s. ?nf v = Inr s) \<and> (\<exists>t. ?wf v = Inr t)"
    using spec_variants_to_features_ok [of ?nf ?wf "[]" vals] by blast
  moreover have "set vals = set vals'" using perm by (rule mset_eq_setD)
  ultimately have "\<forall>v \<in> set vals'. (\<exists>s. ?nf v = Inr s) \<and> (\<exists>t. ?wf v = Inr t)" by simp
  then obtain slots' where s': "spec_variants_to_features ?nf ?wf [] vals' = Inr slots'"
    using spec_variants_to_features_ok [of ?nf ?wf "[]" vals'] by blast
  have "tokens_at slots slot = tokens_at slots' slot" for slot
    by (simp only: spec_variants_to_features_tokens [OF s]
          spec_variants_to_features_tokens [OF s'] sum_list_mset_cong [OF perm])
  then have tokens: "list_all (\<lambda>slot. tokens_at slots slot = tokens_at slots' slot)
                       (map fst slots @ map fst slots')"
    by (simp add: list_all_iff)
  from ok s have ex: "variants ex = slots"
    by (auto simp: small_example_fn_def spec_sample_to_example_def and_then_def
             split: prod.splits)
  from ok s s' tokens show "\<exists>ex'. small_example_fn key vals' small_dict = Inr ex' \<and> same_record ex ex'"
    by (auto simp: small_example_fn_def spec_sample_to_example_def and_then_def same_record_def
             split: prod.splits)
qed

lemma small_variants_rev: "mset small_variants = mset (rev small_variants)"
  by simp

theorem output_set_independent_of_arrival_order_witness:
  "mset small_variants = mset (rev small_variants)
   \<and> variants_to_examples spec_columns small_variants small_dict small_example_fn =
       Inr small_examples
   \<and> (\<exists>outs'. variants_to_examples spec_columns (rev small_variants) small_dict
                 small_example_fn = Inr outs'
         \<and> (\<forall>ex \<in> set small_examples. \<exists>ex' \<in> set outs'. same_record ex ex')
         \<and> (\<forall>ex' \<in> set outs'. \<exists>ex \<in> set small_examples. same_record ex ex'))"
  using output_set_independent_of_arrival_order
          [where f = small_example_fn and md = small_dict and R = same_record
             and c = spec_columns, OF small_variants_rev small_example_fn_order]
    small_variants_rev small_run_examples by blast

section \<open>Options, decimal text and time stamps\<close>

lemma parse_known_args_append:
  "parse_known_args ns (xs @ ys) =
     and_then (parse_known_args ns xs) (\<lambda>ns'. parse_known_args ns' ys)"
  by (induction xs arbitrary: ns) (auto simp: and_then_def split: sum.splits)

lemma action_keeps_bin_size:
  assumes "action ns a = Inr ns'" and "\<forall>v. a \<noteq> BinSize v"
  shows "ns_bin_size ns' = ns_bin_size ns"
  using assms by (cases a) auto

lemma action_keeps_add_hethom:
  assumes "action ns a = Inr ns'" and "a \<noteq> HethomWords" and "a \<noteq> NoHethomWords"
  shows "ns_add_hethom ns' = ns_add_hethom ns"
  using assms by (cases a) (auto split: sum.splits)

lemma parse_known_args_keeps_bin_size:
  assumes "parse_known_args ns args = Inr ns'" and "\<forall>v. BinSize v \<notin> set args"
  shows "ns_bin_size ns' = ns_bin_size ns"
  using assms
proof (induction args arbitrary: ns)
  case Nil
  then show ?case by simp
next
  case (Cons a args)
  from Cons.prems(1) obtain mid where
    a: "action ns a = Inr mid" and rest: "parse_known_args mid args = Inr ns'"
    by (auto split: sum.splits)
  from Cons.prems(2) have "\<forall>v. a \<noteq> BinSize v" and "\<forall>v. BinSize v \<notin> set args" by auto
  with a rest Cons.IH show ?case by (metis action_keeps_bin_size)
qed

lemma parse_known_args_keeps_add_hethom:
  assumes "parse_known_args ns args = Inr ns'"
    and "HethomWords \<notin> set args" and "NoHethomWords \<notin> set args"
  shows "ns_add_hethom ns' = ns_add_hethom ns"
  using assms
proof (induction args arbitrary: ns)
  case Nil
  then show ?case by simp
next
  case (Cons a args)
  from Cons.prems(1) obtain mid where
    a: "action ns a = Inr mid" and rest: "parse_known_args mid args = Inr ns'"
    by (auto split: sum.splits)
  from Cons.prems have "a \<noteq> HethomWords" "a \<noteq> NoHethomWords"
    "HethomWords \<notin> set args" "NoHethomWords \<notin> set args" by auto
  with a rest Cons.IH show ?case by (metis action_keeps_add_hethom)
qed

lemma parse_args_Inr:
  assumes "parse_args argv = Inr opts"
  obtains ns where "parse_known_args defaults argv = Inr ns"
    and "bin_size opts = ns_bin_size ns" and "add_hethom opts = ns_add_hethom ns"
proof -
  from assms obtain ns where p: "parse_known_args defaults argv = Inr ns"
    and r: "required ns = Inr opts"
    by (auto simp: parse_args_def and_then_def split: sum.splits)
  from r have "bin_size opts = ns_bin_size ns" "add_hethom opts = ns_add_hethom ns"
    by (auto simp: required_def split: option.splits)
  with p that show thesis by blast
qed

lemma parse_known_args_split:
  assumes "parse_known_args ns (pre @ a # post) = Inr ns'"
  obtains m1 m2 where "parse_known_args ns pre = Inr m1" and "action m1 a = Inr m2"
    and "parse_known_args m2 post = Inr ns'"
proof -
  from assms obtain m1 where 1: "parse_known_args ns pre = Inr m1"
    and "parse_known_args m1 (a # post) = Inr ns'"
    by (auto simp: parse_known_args_append and_then_def split: sum.splits)
  then obtain m2 where "action m1 a = Inr m2" "parse_known_args m2 post = Inr ns'"
    by (auto split: sum.splits)
  with 1 that show thesis by blast
qed

lemma bin_size_of_argv:
  assumes "parse_args argv = Inr opts"
  shows "((\<forall>v. BinSize v \<notin> set argv) \<longrightarrow> bin_size opts = None)
       \<and> (\<forall>pre v post. argv = pre @ BinSize v # post \<and> (\<forall>u. BinSize u \<notin> set post) \<longrightarrow>
            (\<exists>n. py_int v = Inr n \<and> bin_size opts = Some n))"
proof (intro conjI allI impI)
  assume none: "\<forall>v. BinSize v \<notin> set argv"
  from assms obtain ns where p: "parse_known_args defaults argv = Inr ns"
    and b: "bin_size opts = ns_bin_size ns" by (rule parse_args_Inr)
  from parse_known_args_keeps_bin_size [OF p none] b
  show "bin_size opts = None" by (simp add: defaults_def)
next
  fix pre v post
  assume "argv = pre @ BinSize v # post \<and> (\<forall>u. BinSize u \<notin> set post)"
  then have argv: "argv = pre @ BinSize v # post" and last: "\<forall>u. BinSize u \<notin> set post"
    by auto
  from assms obtain ns where p: "parse_known_args defaults argv = Inr ns"
    and b: "bin_size opts = ns_bin_size ns" by (rule parse_args_Inr)
  from p argv have "parse_known_args defaults (pre @ BinSize v # post) = Inr ns" by simp
  then obtain m1 m2 where a: "action m1 (BinSize v) = Inr m2"
    and rest: "parse_known_args m2 post = Inr ns"
    by (rule parse_known_args_split)
  from a obtain n where n: "py_int v = Inr n" "ns_bin_size m2 = Some n"
    by (auto split: sum.splits)
  from parse_known_args_keeps_bin_size [OF rest last] n b
  show "\<exists>n. py_int v = Inr n \<and> bin_size opts = Some n" by simp
qed

lemma hethom_flag_last:
  assumes "parse_known_args m args = Inr ns"
    and "other \<notin> set args"
    and "other = HethomWords \<or> other = NoHethomWords"
    and "ns_add_hethom m = (other = NoHethomWords)"
  shows "ns_add_hethom ns = (other = NoHethomWords)"
  using assms(1,2,4)
proof (induction args arbitrary: m)
  case Nil
  then show ?case by simp
next
  case (Cons a args)
  from Cons.prems(1) obtain mid where
    s: "action m a = Inr mid" and r: "parse_known_args mid args = Inr ns"
    by (auto split: sum.splits)
  from Cons.prems(2) have "a \<noteq> other" "other \<notin> set args" by auto
  with s Cons.prems(3) assms(3) have "ns_add_hethom mid = (other = NoHethomWords)"
    by (cases a) (auto split: sum.splits)
  with Cons.IH r \<open>other \<notin> set args\<close> show ?case by blast
qed

lemma add_hethom_of_argv:
  assumes "parse_args argv = Inr opts"
  shows "(HethomWords \<notin> set argv \<and> NoHethomWords \<notin> set argv \<longrightarrow> add_hethom opts)
       \<and> (\<forall>pre post. argv = pre @ HethomWords # post \<and> NoHethomWords \<notin> set post \<longrightarrow>
            add_hethom opts)
       \<and> (\<forall>pre post. argv = pre @ NoHethomWords # post \<and> HethomWords \<notin> set post \<longrightarrow>
            \<not> add_hethom opts)"
proof -
  from assms obtain ns where p: "parse_known_args defaults argv = Inr ns"
    and h: "add_hethom opts = ns_add_hethom ns" by (rule parse_args_Inr)
  have d: "ns_add_hethom defaults" by (simp add: defaults_def)
  have none: "add_hethom opts" if "HethomWords \<notin> set argv \<and> NoHethomWords \<notin> set argv"
    using parse_known_args_keeps_add_hethom [OF p] that h d by simp
  have on: "add_hethom opts"
    if "argv = pre @ HethomWords # post \<and> NoHethomWords \<notin> set post" for pre post
  proof -
    from that have "argv = pre @ HethomWords # post" by simp
    with p have "parse_known_args defaults (pre @ HethomWords # post) = Inr ns" by simp
    then obtain m1 m2 where a: "action m1 HethomWords = Inr m2"
      and rest: "parse_known_args m2 post = Inr ns"
      by (rule parse_known_args_split)
    from a have "ns_add_hethom m2 = (NoHethomWords = NoHethomWords)" by auto
    moreover from that have "NoHethomWords \<notin> set post" by simp
    ultimately have "ns_add_hethom ns = (NoHethomWords = NoHethomWords)"
      using rest by (intro hethom_flag_last [of m2 post ns NoHethomWords]) simp_all
    with h show ?thesis by simp
  qed
  have off: "\<not> add_hethom opts"
    if "argv = pre @ NoHethomWords # post \<and> HethomWords \<notin> set post" for pre post
  proof -
    from that have "argv = pre @ NoHethomWords # post" by simp
    with p have "parse_known_args defaults (pre @ NoHethomWords # post) = Inr ns" by simp
    then obtain m1 m2 where a: "action m1 NoHethomWords = Inr m2"
      and rest: "parse_known_args m2 post = Inr ns"
      by (rule parse_known_args_split)
    from a have "ns_add_hethom m2 = (HethomWords = NoHethomWords)" by auto
    moreover from that have "HethomWords \<notin> set post" by simp
    ultimately have "ns_add_hethom ns = (HethomWords = NoHethomWords)"
      using rest by (intro hethom_flag_last [of m2 post ns HethomWords]) simp_all
    with h show ?thesis by simp
  qed
  from none on off show ?thesis by blast
qed

lemma digit_below_ten:
  assumes "k < 10"
  shows "''0123456789'' ! k \<in> set ''0123456789''
       \<and> digit_value (''0123456789'' ! k) = int k"
proof -
  from assms have "k = 0 \<or> k = 1 \<or> k = 2 \<or> k = 3 \<or> k = 4 \<or> k = 5 \<or> k = 6 \<or> k = 7
      \<or> k = 8 \<or> k = 9" by arith
  then show ?thesis
    by (elim disjE) (simp_all add: digit_value_def)
qed

lemma digit_cases:
  "digit n \<in> set ''0123456789'' \<and> digit_value (digit n) = int (n mod 10)"
  unfolding digit_def by (rule digit_below_ten) simp

lemma is_digit_digit: "is_digit (digit n)"
  using digit_cases [of n] by (simp add: is_digit_def)

lemma digit_value_digit: "digit_value (digit n) = int (n mod 10)"
  using digit_cases [of n] by simp

lemma digits_value_snoc:
  "digits_value (ds @ [d]) = 10 * digits_value ds + digit_value d"
  by (simp add: digits_value_def)

lemma digits_value_str_nat: "digits_value (str_nat n) = int n"
proof (induction n rule: str_nat.induct)
  case (1 n)
  show ?case
  proof (cases "n < 10")
    case True
    then show ?thesis
      by (simp add: str_nat.simps [of n] digits_value_def digit_value_digit)
  next
    case False
    with 1 have "digits_value (str_nat (n div 10)) = int (n div 10)" by simp
    with False show ?thesis
      by (simp add: str_nat.simps [of n] digits_value_snoc digit_value_digit) presburger
  qed
qed

lemma str_nat_digits: "str_nat n \<noteq> [] \<and> list_all is_digit (str_nat n)"
proof (induction n rule: str_nat.induct)
  case (1 n)
  then show ?case
    by (cases "n < 10") (simp_all add: str_nat.simps [of n] is_digit_digit)
qed

lemma str_nat_inj:
  assumes "str_nat n = str_nat m"
  shows "n = m"
proof -
  have "int n = digits_value (str_nat n)" by (simp only: digits_value_str_nat)
  also have "\<dots> = digits_value (str_nat m)" by (simp only: assms)
  also have "\<dots> = int m" by (simp only: digits_value_str_nat)
  finally show ?thesis by simp
qed

lemma str_nat_ends:
  "is_digit (hd (str_nat n)) \<and> is_digit (last (str_nat n))"
proof -
  from str_nat_digits [of n] have ne: "str_nat n \<noteq> []"
    and all: "\<forall>ch \<in> set (str_nat n). is_digit ch" by (simp_all add: list_all_iff)
  from ne have "hd (str_nat n) \<in> set (str_nat n)" "last (str_nat n) \<in> set (str_nat n)"
    by simp_all
  with all show ?thesis by blast
qed

lemma expand_stamp:
  "expand dt ''%Y%m%d-%H%M%S'' =
     str_nat (year dt) @ pad2 (month dt) @ pad2 (day dt) @ ''-'' @ pad2 (hour dt)
       @ pad2 (minute dt) @ pad2 (second dt)"
  by (simp add: directive_def)

lemma length_pad2: "length (pad2 n) = 2"
  by (simp add: pad2_def)

lemma digits_value_pad2:
  assumes "n < 100"
  shows "digits_value (pad2 n) = int n"
proof -
  have "digits_value (pad2 n) = int (10 * (n div 10 mod 10) + n mod 10)"
    by (simp add: pad2_def digits_value_def digit_value_digit)
  also from assms have "10 * (n div 10 mod 10) + n mod 10 = n" by simp
  finally show ?thesis .
qed

lemma append_split_tail:
  assumes "xs @ us = ys @ vs" and "length us = length vs"
  shows "xs = ys \<and> us = vs"
  using assms by (simp add: append_eq_append_conv)

lemma append_split_head:
  assumes "xs @ us = ys @ vs" and "length xs = length ys"
  shows "xs = ys \<and> us = vs"
  using assms by (simp add: append_eq_append_conv)

lemma pad2_inj:
  assumes "n < 100" and "m < 100" and "pad2 n = pad2 m"
  shows "n = m"
proof -
  have "int n = digits_value (pad2 n)" using assms(1) by (simp only: digits_value_pad2)
  also have "\<dots> = digits_value (pad2 m)" by (simp only: assms(3))
  also have "\<dots> = int m" using assms(2) by (simp only: digits_value_pad2)
  finally show ?thesis by simp
qed

lemma length_str_nat_year:
  assumes "1000 \<le> n" and "n \<le> 9999"
  shows "length (str_nat n) = 4"
proof -
  from assms have a: "\<not> n < 10" "\<not> n div 10 < 10" "\<not> n div 100 < 10" "n div 1000 < 10"
    by simp_all
  have 1: "str_nat n = str_nat (n div 10) @ [digit n]"
    using a(1) by (simp add: str_nat.simps [of n])
  have 2: "str_nat (n div 10) = str_nat (n div 100) @ [digit (n div 10)]"
    using a(2) by (simp add: str_nat.simps [of "n div 10"] div_mult2_eq [symmetric])
  have 3: "str_nat (n div 100) = str_nat (n div 1000) @ [digit (n div 100)]"
    using a(3) by (simp add: str_nat.simps [of "n div 100"] div_mult2_eq [symmetric])
  have 4: "str_nat (n div 1000) = [digit (n div 1000)]"
    using a(4) by (simp add: str_nat.simps [of "n div 1000"])
  show ?thesis by (simp add: 1 2 3 4)
qed

lemma stamp_inj:
  assumes "valid_datetime a" and "valid_datetime b"
    and "expand a ''%Y%m%d-%H%M%S'' = expand b ''%Y%m%d-%H%M%S''"
  shows "at_second a = at_second b"
proof -
  let ?tail = "\<lambda>dt. pad2 (month dt) @ pad2 (day dt) @ ''-'' @ pad2 (hour dt)
                 @ pad2 (minute dt) @ pad2 (second dt)"
  from assms(3) have "str_nat (year a) @ ?tail a = str_nat (year b) @ ?tail b"
    by (simp only: expand_stamp)
  moreover have "length (?tail a) = length (?tail b)" by (simp add: length_pad2)
  ultimately have "str_nat (year a) = str_nat (year b) \<and> ?tail a = ?tail b"
    by (rule append_split_tail)
  then have y: "str_nat (year a) = str_nat (year b)" and t: "?tail a = ?tail b" by simp_all
  have len: "\<And>n m. length (pad2 n) = length (pad2 m)" by (simp add: length_pad2)
  from append_split_head [OF t len]
  have m: "pad2 (month a) = pad2 (month b)"
    and t1: "pad2 (day a) @ ''-'' @ pad2 (hour a) @ pad2 (minute a) @ pad2 (second a) =
             pad2 (day b) @ ''-'' @ pad2 (hour b) @ pad2 (minute b) @ pad2 (second b)"
    by simp_all
  from append_split_head [OF t1 len]
  have d: "pad2 (day a) = pad2 (day b)"
    and t2: "pad2 (hour a) @ pad2 (minute a) @ pad2 (second a) =
             pad2 (hour b) @ pad2 (minute b) @ pad2 (second b)"
    by simp_all
  from append_split_head [OF t2 len]
  have h: "pad2 (hour a) = pad2 (hour b)"
    and t3: "pad2 (minute a) @ pad2 (second a) = pad2 (minute b) @ pad2 (second b)"
    by simp_all
  from append_split_head [OF t3 len]
  have mi: "pad2 (minute a) = pad2 (minute b)"
    and s: "pad2 (second a) = pad2 (second b)"
    by simp_all
  from assms(1,2) have bounds:
    "month a < 100" "month b < 100" "day a < 100" "day b < 100" "hour a < 100" "hour b < 100"
    "minute a < 100" "minute b < 100" "second a < 100" "second b < 100"
    by (simp_all add: valid_datetime_def)
  from y have "year a = year b" by (rule str_nat_inj)
  moreover from bounds m have "month a = month b" by (intro pad2_inj)
  moreover from bounds d have "day a = day b" by (intro pad2_inj)
  moreover from bounds h have "hour a = hour b" by (intro pad2_inj)
  moreover from bounds mi have "minute a = minute b" by (intro pad2_inj)
  moreover from bounds s have "second a = second b" by (intro pad2_inj)
  ultimately show ?thesis by (simp add: at_second_def)
qed

lemma length_stamp:
  assumes "1900 \<le> year dt" and "year dt \<le> 9999"
  shows "length (expand dt ''%Y%m%d-%H%M%S'') = 15"
  using assms by (simp only: expand_stamp) (simp add: length_pad2 length_str_nat_year)

lemma stamp_ends:
  "expand dt ''%Y%m%d-%H%M%S'' \<noteq> []
   \<and> hd (expand dt ''%Y%m%d-%H%M%S'') \<noteq> CHR ''/''
   \<and> last (expand dt ''%Y%m%d-%H%M%S'') \<noteq> CHR ''/''"
proof -
  have ne: "str_nat (year dt) \<noteq> []" using str_nat_digits by blast
  have "is_digit (hd (str_nat (year dt)))" using str_nat_ends by blast
  then have h: "hd (str_nat (year dt)) \<noteq> CHR ''/''" by (auto simp: is_digit_def)
  have "is_digit (digit (second dt))" by (rule is_digit_digit)
  then have l: "digit (second dt) \<noteq> CHR ''/''" by (auto simp: is_digit_def)
  from ne h l show ?thesis
    by (simp only: expand_stamp) (simp add: pad2_def)
qed

lemma small_parse: "parse_args small_argv = Inr small_options"
  by (simp add: parse_args_def small_argv_def defaults_def required_def and_then_def
        small_options_def)

lemma binned_parse: "parse_args binned_argv = Inr binned_options"
  by code_simp

lemma small_run: "run spec_columns spec_trainer small_world small_argv = Inr (small_job, small_written)"
  by code_simp

lemma later_run: "run spec_columns spec_trainer later_world small_argv = Inr (later_job, later_written)"
  by code_simp

section \<open>Queries and output paths\<close>

lemma and_then_Inr:
  assumes "and_then m k = Inr y"
  obtains x where "m = Inr x" and "k x = Inr y"
  using assms by (cases m) (simp_all add: and_then_def)

lemma startup_Inr:
  assumes "startup c t w argv = Inr (options, metadata_query, data_query, f)"
  obtains opts where "parse_args argv = Inr opts"
    and "job_options w opts = Inr options"
    and "render_query w (metadata opts) (METADATA_QUERY_REPLACEMENTS c) = Inr metadata_query"
    and "render_query w (input opts) (DATA_QUERY_REPLACEMENTS c) = Inr data_query"
    and "sample_to_example_fn t opts = Inr f"
proof -
  from assms [unfolded startup_def] obtain opts where 1: "parse_args argv = Inr opts"
    and r1: "and_then (job_options w opts) (\<lambda>options'.
       and_then (render_query w (metadata opts) (METADATA_QUERY_REPLACEMENTS c)) (\<lambda>mq.
       and_then (render_query w (input opts) (DATA_QUERY_REPLACEMENTS c)) (\<lambda>dq.
       and_then (sample_to_example_fn t opts) (\<lambda>example_fn.
         Inr (options', mq, dq, example_fn))))) = Inr (options, metadata_query, data_query, f)"
    by (rule and_then_Inr)
  from r1 obtain j where 2: "job_options w opts = Inr j"
    and r2: "and_then (render_query w (metadata opts) (METADATA_QUERY_REPLACEMENTS c)) (\<lambda>mq.
       and_then (render_query w (input opts) (DATA_QUERY_REPLACEMENTS c)) (\<lambda>dq.
       and_then (sample_to_example_fn t opts) (\<lambda>example_fn.
         Inr (j, mq, dq, example_fn)))) = Inr (options, metadata_query, data_query, f)"
    by (rule and_then_Inr)
  from r2 obtain mq where
    3: "render_query w (metadata opts) (METADATA_QUERY_REPLACEMENTS c) = Inr mq"
    and r3: "and_then (render_query w (input opts) (DATA_QUERY_REPLACEMENTS c)) (\<lambda>dq.
       and_then (sample_to_example_fn t opts) (\<lambda>example_fn.
         Inr (j, mq, dq, example_fn))) = Inr (options, metadata_query, data_query, f)"
    by (rule and_then_Inr)
  from r3 obtain dq where
    4: "render_query w (input opts) (DATA_QUERY_REPLACEMENTS c) = Inr dq"
    and r4: "and_then (sample_to_example_fn t opts) (\<lambda>example_fn.
         Inr (j, mq, dq, example_fn)) = Inr (options, metadata_query, data_query, f)"
    by (rule and_then_Inr)
  from r4 have 5: "sample_to_example_fn t opts = Inr f"
    and eqs: "j = options" "mq = metadata_query" "dq = data_query"
    by (cases "sample_to_example_fn t opts"; simp add: and_then_def)+
  from 1 2 3 4 5 eqs that show thesis by blast
qed

lemma render_query_Inr:
  assumes "render_query w path replacements = Inr query"
  shows "\<exists>template. files w path = Some template \<and> render w template replacements = Inr query"
  using assms by (cases "files w path") (simp_all add: render_query_def)

lemma metadata_replacements:
  "dom (METADATA_QUERY_REPLACEMENTS c) =
     {''KEY_COLUMN'', ''POPULATION_COLUMN'', ''SUPER_POPULATION_COLUMN'', ''GENDER_COLUMN''}
   \<and> METADATA_QUERY_REPLACEMENTS c ''KEY_COLUMN'' = Some (KEY_COLUMN c)
   \<and> METADATA_QUERY_REPLACEMENTS c ''POPULATION_COLUMN'' = Some (POPULATION_COLUMN c)
   \<and> METADATA_QUERY_REPLACEMENTS c ''SUPER_POPULATION_COLUMN'' =
       Some (SUPER_POPULATION_COLUMN c)
   \<and> METADATA_QUERY_REPLACEMENTS c ''GENDER_COLUMN'' = Some (GENDER_COLUMN c)"
  by (auto simp: METADATA_QUERY_REPLACEMENTS_def)

lemma data_replacements_dom:
  "dom (DATA_QUERY_REPLACEMENTS c) =
     {''KEY_COLUMN'', ''CONTIG_COLUMN'', ''START_COLUMN'', ''END_COLUMN'', ''REF_COLUMN'',
      ''ALT_COLUMN'', ''ALT_NUM_COLUMN'', ''FIRST_ALLELE_COLUMN'', ''SECOND_ALLELE_COLUMN''}"
  by (auto simp: DATA_QUERY_REPLACEMENTS_def)

lemma data_replacements:
  "DATA_QUERY_REPLACEMENTS c ''KEY_COLUMN'' = Some (KEY_COLUMN c)
   \<and> DATA_QUERY_REPLACEMENTS c ''CONTIG_COLUMN'' = Some (CONTIG_COLUMN c)
   \<and> DATA_QUERY_REPLACEMENTS c ''START_COLUMN'' = Some (START_COLUMN c)
   \<and> DATA_QUERY_REPLACEMENTS c ''END_COLUMN'' = Some (END_COLUMN c)
   \<and> DATA_QUERY_REPLACEMENTS c ''REF_COLUMN'' = Some (REF_COLUMN c)
   \<and> DATA_QUERY_REPLACEMENTS c ''ALT_COLUMN'' = Some (ALT_COLUMN c)
   \<and> DATA_QUERY_REPLACEMENTS c ''ALT_NUM_COLUMN'' = Some (ALT_NUM_COLUMN c)
   \<and> DATA_QUERY_REPLACEMENTS c ''FIRST_ALLELE_COLUMN'' = Some (FIRST_ALLELE_COLUMN c)
   \<and> DATA_QUERY_REPLACEMENTS c ''SECOND_ALLELE_COLUMN'' = Some (SECOND_ALLELE_COLUMN c)"
  by (simp add: DATA_QUERY_REPLACEMENTS_def)

text \<open>
  Claim C8. The metadata dictionary has exactly the four placeholders \<open>KEY_COLUMN\<close>,
  \<open>POPULATION_COLUMN\<close>, \<open>SUPER_POPULATION_COLUMN\<close> and \<open>GENDER_COLUMN\<close>, the data
  dictionary exactly the nine placeholders \<open>KEY_COLUMN\<close>, \<open>CONTIG_COLUMN\<close>,
  \<open>START_COLUMN\<close>, \<open>END_COLUMN\<close>, \<open>REF_COLUMN\<close>, \<open>ALT_COLUMN\<close>, \<open>ALT_NUM_COLUMN\<close>,
  \<open>FIRST_ALLELE_COLUMN\<close> and \<open>SECOND_ALLELE_COLUMN\<close>, each mapped to the column-name
  constant of the same name; and the two queries of a run that gets to its pipeline are
  the renderings of the \<open>--metadata\<close> file with the first dictionary and of the
  \<open>--input\<close> file with the second.
\<close>

theorem templates_get_the_column_names:
  assumes "startup c t w argv = Inr (options, metadata_query, data_query, f)"
  shows "dom (METADATA_QUERY_REPLACEMENTS c) =
           {''KEY_COLUMN'', ''POPULATION_COLUMN'', ''SUPER_POPULATION_COLUMN'',
            ''GENDER_COLUMN''}
       \<and> METADATA_QUERY_REPLACEMENTS c ''KEY_COLUMN'' = Some (KEY_COLUMN c)
       \<and> METADATA_QUERY_REPLACEMENTS c ''POPULATION_COLUMN'' = Some (POPULATION_COLUMN c)
       \<and> METADATA_QUERY_REPLACEMENTS c ''SUPER_POPULATION_COLUMN'' =
           Some (SUPER_POPULATION_COLUMN c)
       \<and> METADATA_QUERY_REPLACEMENTS c ''GENDER_COLUMN'' = Some (GENDER_COLUMN c)
       \<and> dom (DATA_QUERY_REPLACEMENTS c) =
           {''KEY_COLUMN'', ''CONTIG_COLUMN'', ''START_COLUMN'', ''END_COLUMN'',
            ''REF_COLUMN'', ''ALT_COLUMN'', ''ALT_NUM_COLUMN'', ''FIRST_ALLELE_COLUMN'',
            ''SECOND_ALLELE_COLUMN''}
       \<and> DATA_QUERY_REPLACEMENTS c ''KEY_COLUMN'' = Some (KEY_COLUMN c)
       \<and> DATA_QUERY_REPLACEMENTS c ''CONTIG_COLUMN'' = Some (CONTIG_COLUMN c)
       \<and> DATA_QUERY_REPLACEMENTS c ''START_COLUMN'' = Some (START_COLUMN c)
       \<and> DATA_QUERY_REPLACEMENTS c ''END_COLUMN'' = Some (END_COLUMN c)
       \<and> DATA_QUERY_REPLACEMENTS c ''REF_COLUMN'' = Some (REF_COLUMN c)
       \<and> DATA_QUERY_REPLACEMENTS c ''ALT_COLUMN'' = Some (ALT_COLUMN c)
       \<and> DATA_QUERY_REPLACEMENTS c ''ALT_NUM_COLUMN'' = Some (ALT_NUM_COLUMN c)
       \<and> DATA_QUERY_REPLACEMENTS c ''FIRST_ALLELE_COLUMN'' = Some (FIRST_ALLELE_COLUMN c)
       \<and> DATA_QUERY_REPLACEMENTS c ''SECOND_ALLELE_COLUMN'' = Some (SECOND_ALLELE_COLUMN c)
       \<and> (\<exists>opts metadata_template data_template.
             parse_args argv = Inr opts
           \<and> files w (metadata opts) = Some metadata_template
           \<and> render w metadata_template (METADATA_QUERY_REPLACEMENTS c) = Inr metadata_query
           \<and> files w (input opts) = Some data_template
           \<and> render w data_template (DATA_QUERY_REPLACEMENTS c) = Inr data_query)"
proof -
  from assms obtain opts where p: "parse_args argv = Inr opts"
    and m: "render_query w (metadata opts) (METADATA_QUERY_REPLACEMENTS c) = Inr metadata_query"
    and d: "render_query w (input opts) (DATA_QUERY_REPLACEMENTS c) = Inr data_query"
    by (rule startup_Inr)
  from render_query_Inr [OF m] obtain mt where
    mt: "files w (metadata opts) = Some mt"
        "render w mt (METADATA_QUERY_REPLACEMENTS c) = Inr metadata_query" by blast
  from render_query_Inr [OF d] obtain dt where
    dt: "files w (input opts) = Some dt"
        "render w dt (DATA_QUERY_REPLACEMENTS c) = Inr data_query" by blast
  from p mt dt have rendered: "\<exists>opts metadata_template data_template.
             parse_args argv = Inr opts
           \<and> files w (metadata opts) = Some metadata_template
           \<and> render w metadata_template (METADATA_QUERY_REPLACEMENTS c) = Inr metadata_query
           \<and> files w (input opts) = Some data_template
           \<and> render w data_template (DATA_QUERY_REPLACEMENTS c) = Inr data_query"
    by blast
  from metadata_replacements [of c] data_replacements_dom [of c] data_replacements [of c]
    rendered
  show ?thesis by (intro conjI) (simp_all only:)
qed

lemma small_startup:
  "startup spec_columns spec_trainer small_world small_argv =
     Inr (small_job, ''SELECT key , gender FROM m'', ''SELECT key , start FROM v'',
          small_example_fn)"
  by (simp add: startup_def parse_args_def small_argv_def defaults_def required_def
        and_then_def job_options_def small_world_def small_clock_def
        strftime_def directive_def pad2_def digit_def str_nat.simps os_path_join_def join2_def
        render_query_def render_words_def render_word_def
        METADATA_QUERY_REPLACEMENTS_def DATA_QUERY_REPLACEMENTS_def spec_columns_def
        sample_to_example_fn_def variants_to_features_fn_def variant_to_feature_name_fn_def
        spec_trainer_def small_example_fn_def small_job_def)

theorem templates_get_the_column_names_witness:
  "startup spec_columns spec_trainer small_world small_argv =
     Inr (small_job, ''SELECT key , gender FROM m'', ''SELECT key , start FROM v'',
          small_example_fn)
   \<and> METADATA_QUERY_REPLACEMENTS spec_columns ''GENDER_COLUMN'' = Some ''gender''
   \<and> DATA_QUERY_REPLACEMENTS spec_columns ''START_COLUMN'' = Some ''start''
   \<and> (\<exists>opts metadata_template data_template.
         parse_args small_argv = Inr opts
       \<and> files small_world (metadata opts) = Some metadata_template
       \<and> render small_world metadata_template (METADATA_QUERY_REPLACEMENTS spec_columns) =
           Inr ''SELECT key , gender FROM m''
       \<and> files small_world (input opts) = Some data_template
       \<and> render small_world data_template (DATA_QUERY_REPLACEMENTS spec_columns) =
           Inr ''SELECT key , start FROM v'')"
proof -
  have "GENDER_COLUMN spec_columns = ''gender''" "START_COLUMN spec_columns = ''start''"
    by (simp_all add: spec_columns_def)
  with templates_get_the_column_names [OF small_startup] small_startup
  show ?thesis by simp
qed

lemma strftime_Inr:
  assumes "strftime dt fmt = Inr s"
  shows "1900 \<le> year dt \<and> s = expand dt fmt"
  using assms by (auto simp: strftime_def split: if_splits)

lemma join_relative:
  assumes "b \<noteq> []" and "hd b \<noteq> CHR ''/''"
  shows "os_path_join a [b] = a @ (if a = [] \<or> last a = CHR ''/'' then [] else ''/'') @ b"
  using assms by (simp add: os_path_join_def join2_def)

lemma join_below:
  assumes "dir \<noteq> []" and "last dir \<noteq> CHR ''/''"
  shows "os_path_join dir [''tmp'', ''staging''] = dir @ ''/tmp/staging''"
    and "os_path_join dir [''tmp''] = dir @ ''/tmp''"
    and "os_path_join dir [''examples''] = dir @ ''/examples''"
  using assms by (simp_all add: os_path_join_def join2_def)

lemma job_options_Inr:
  assumes "job_options w opts = Inr j"
  obtains stamp where "strftime (now w 0) ''%Y%m%d-%H%M%S'' = Inr stamp"
    and "output_dir j = os_path_join (output' opts) [stamp]"
    and "staging_location j = os_path_join (output_dir j) [''tmp'', ''staging'']"
    and "temp_location j = os_path_join (output_dir j) [''tmp'']"
proof -
  from assms [unfolded job_options_def] obtain stamp where
    s: "strftime (now w 0) ''%Y%m%d-%H%M%S'' = Inr stamp"
    and r: "(let out = os_path_join (output' opts) [stamp]
       in and_then (strftime (now w 1) ''%y%m%d-%H%M%S'') (\<lambda>job_stamp.
            Inr \<lparr>output_dir = out,
                 save_main_session = True,
                 autoscaling_algorithm = ''THROUGHPUT_BASED'',
                 staging_location = os_path_join out [''tmp'', ''staging''],
                 temp_location = os_path_join out [''tmp''],
                 job_name = ''preprocess-varianteatures-'' @ job_stamp\<rparr>)) = Inr j"
    by (rule and_then_Inr)
  from r have "output_dir j = os_path_join (output' opts) [stamp]"
    "staging_location j = os_path_join (output_dir j) [''tmp'', ''staging'']"
    "temp_location j = os_path_join (output_dir j) [''tmp'']"
    by (cases "strftime (now w 1) ''%y%m%d-%H%M%S''"; auto simp: Let_def and_then_def)+
  with s that show thesis by blast
qed

lemma run_Inr:
  assumes "run c t w argv = Inr (j, out)"
  obtains metadata_query data_query f where
    "startup c t w argv = Inr (j, metadata_query, data_query, f)"
    and "pipeline c t w j metadata_query data_query f = Inr out"
proof -
  from assms [unfolded run_def] obtain s where s: "startup c t w argv = Inr s"
    and r: "(case s of (options, metadata_query, data_query, example_fn) \<Rightarrow>
       and_then (pipeline c t w options metadata_query data_query example_fn) (\<lambda>written.
         Inr (options, written))) = Inr (j, out)"
    by (rule and_then_Inr)
  obtain options mq dq f where sv: "s = (options, mq, dq, f)" by (cases s)
  from r sv have "pipeline c t w options mq dq f = Inr out \<and> options = j"
    by (cases "pipeline c t w options mq dq f") (simp_all add: and_then_def)
  with s sv that show thesis by blast
qed

lemma pipeline_Inr:
  assumes "pipeline c t w options metadata_query data_query f = Inr out"
  shows "file_path_prefix out = os_path_join (output_dir options) [''examples'']"
proof -
  from assms obtain metadata_rows where
    m: "BigQuerySource w metadata_query = Inr metadata_rows"
    by (cases "BigQuerySource w metadata_query") (simp_all add: pipeline_def and_then_def)
  from assms m obtain rows where v: "BigQuerySource w data_query = Inr rows"
    by (cases "BigQuerySource w data_query") (simp_all add: pipeline_def and_then_def)
  from assms show ?thesis
    by (cases "variants_to_examples c rows
                 (TableToDictCombineFn t (KEY_COLUMN c) metadata_rows) f")
       (auto simp: pipeline_read [OF m v] and_then_def)
qed

lemma output_dir_form:
  assumes j: "job_options w opts = Inr j" and valid: "valid_datetime (now w 0)"
  shows "\<exists>stamp. strftime (now w 0) ''%Y%m%d-%H%M%S'' = Inr stamp
           \<and> stamp = expand (now w 0) ''%Y%m%d-%H%M%S''
           \<and> length stamp = 15
           \<and> output_dir j =
               output' opts
                 @ (if output' opts = [] \<or> last (output' opts) = CHR ''/'' then [] else ''/'')
                 @ stamp
           \<and> staging_location j = output_dir j @ ''/tmp/staging''
           \<and> temp_location j = output_dir j @ ''/tmp''
           \<and> os_path_join (output_dir j) [''examples''] = output_dir j @ ''/examples''"
proof -
  let ?fmt = "''%Y%m%d-%H%M%S''"
  from j obtain stamp where s: "strftime (now w 0) ?fmt = Inr stamp"
    and dir: "output_dir j = os_path_join (output' opts) [stamp]"
    and st: "staging_location j = os_path_join (output_dir j) [''tmp'', ''staging'']"
    and tm: "temp_location j = os_path_join (output_dir j) [''tmp'']"
    by (rule job_options_Inr)
  from strftime_Inr [OF s] have y: "1900 \<le> year (now w 0)" and e: "stamp = expand (now w 0) ?fmt"
    by simp_all
  from valid have "year (now w 0) \<le> 9999" by (simp add: valid_datetime_def)
  with y have len: "length stamp = 15" unfolding e by (intro length_stamp)
  from stamp_ends [of "now w 0"] e
  have ends: "stamp \<noteq> []" "hd stamp \<noteq> CHR ''/''" "last stamp \<noteq> CHR ''/''" by simp_all
  from dir join_relative [OF ends(1,2)]
  have d: "output_dir j =
             output' opts
               @ (if output' opts = [] \<or> last (output' opts) = CHR ''/'' then [] else ''/'')
               @ stamp" by simp
  with ends have ne: "output_dir j \<noteq> []" and l: "last (output_dir j) \<noteq> CHR ''/''"
    by simp_all
  from st tm join_below [OF ne l] s e len d show ?thesis by simp
qed

text \<open>
  Claim C10. A run that completes has its output directory at the \<open>--output\<close> path
  followed by the time stamp \<open>%Y%m%d-%H%M%S\<close> of its first clock reading, and its
  staging files, temporary files and records lie below that directory. Two completed
  runs of one command line whose first clock readings differ at second granularity
  have different output directories, and no path below the one is a path below the
  other.
\<close>

theorem runs_write_under_their_own_time_stamp:
  assumes r1: "run c t w argv = Inr (j, out)"
    and r2: "run c t w' argv = Inr (j', out')"
    and v1: "valid_datetime (now w 0)"
    and v2: "valid_datetime (now w' 0)"
    and differ: "at_second (now w 0) \<noteq> at_second (now w' 0)"
  shows "(\<exists>opts stamp sep.
            parse_args argv = Inr opts
          \<and> strftime (now w 0) ''%Y%m%d-%H%M%S'' = Inr stamp
          \<and> (sep = [] \<or> sep = ''/'')
          \<and> output_dir j = output' opts @ sep @ stamp)
       \<and> staging_location j = output_dir j @ ''/tmp/staging''
       \<and> temp_location j = output_dir j @ ''/tmp''
       \<and> file_path_prefix out = output_dir j @ ''/examples''
       \<and> output_dir j \<noteq> output_dir j'
       \<and> (\<forall>p q. output_dir j @ p \<noteq> output_dir j' @ q)"
proof -
  let ?fmt = "''%Y%m%d-%H%M%S''"
  from r1 obtain mq dq f where s1: "startup c t w argv = Inr (j, mq, dq, f)"
    and p1: "pipeline c t w j mq dq f = Inr out" by (rule run_Inr)
  from r2 obtain mq' dq' f' where s2: "startup c t w' argv = Inr (j', mq', dq', f')"
    and p2: "pipeline c t w' j' mq' dq' f' = Inr out'" by (rule run_Inr)
  from s1 obtain opts where a1: "parse_args argv = Inr opts"
    and j1: "job_options w opts = Inr j" by (rule startup_Inr)
  from s2 obtain opts' where a2: "parse_args argv = Inr opts'"
    and j2: "job_options w' opts' = Inr j'" by (rule startup_Inr)
  from a1 a2 have same: "opts' = opts" by simp
  let ?sep = "if output' opts = [] \<or> last (output' opts) = CHR ''/'' then [] else ''/''"
  from output_dir_form [OF j1 v1] obtain stamp where
    st: "strftime (now w 0) ?fmt = Inr stamp"
    and e: "stamp = expand (now w 0) ?fmt"
    and len: "length stamp = 15"
    and dir: "output_dir j = output' opts @ ?sep @ stamp"
    and below: "staging_location j = output_dir j @ ''/tmp/staging''"
      "temp_location j = output_dir j @ ''/tmp''"
      "os_path_join (output_dir j) [''examples''] = output_dir j @ ''/examples''"
    by blast
  from output_dir_form [OF j2 v2] same obtain stamp' where
    e': "stamp' = expand (now w' 0) ?fmt"
    and len': "length stamp' = 15"
    and dir': "output_dir j' = output' opts @ ?sep @ stamp'"
    by auto
  have neq: "stamp \<noteq> stamp'"
  proof
    assume "stamp = stamp'"
    with e e' have "expand (now w 0) ?fmt = expand (now w' 0) ?fmt" by simp
    from stamp_inj [OF v1 v2 this] differ show False by simp
  qed
  have apart: "output_dir j @ p \<noteq> output_dir j' @ q" for p q
  proof
    assume "output_dir j @ p = output_dir j' @ q"
    with dir dir' have "stamp @ p = stamp' @ q" by simp
    with len len' have "stamp = stamp'" by (simp add: append_eq_append_conv)
    with neq show False by simp
  qed
  from apart [of "[]" "[]"] have d: "output_dir j \<noteq> output_dir j'" by simp
  have sep: "?sep = [] \<or> ?sep = ''/''" by simp
  from a1 st dir sep have form: "\<exists>opts stamp sep.
            parse_args argv = Inr opts
          \<and> strftime (now w 0) ?fmt = Inr stamp
          \<and> (sep = [] \<or> sep = ''/'')
          \<and> output_dir j = output' opts @ sep @ stamp" by blast
  from pipeline_Inr [OF p1] below(3)
  have prefix: "file_path_prefix out = output_dir j @ ''/examples''" by simp
  from form below(1,2) prefix d apart show ?thesis by blast
qed

lemma small_clock_valid:
  "valid_datetime (now small_world 0) \<and> valid_datetime (now later_world 0)
   \<and> at_second (now small_world 0) \<noteq> at_second (now later_world 0)"
  by (simp add: valid_datetime_def at_second_def small_world_def later_world_def
        small_clock_def)

theorem runs_write_under_their_own_time_stamp_witness:
  "run spec_columns spec_trainer small_world small_argv = Inr (small_job, small_written)
   \<and> run spec_columns spec_trainer later_world small_argv = Inr (later_job, later_written)
   \<and> valid_datetime (now small_world 0)
   \<and> valid_datetime (now later_world 0)
   \<and> at_second (now small_world 0) \<noteq> at_second (now later_world 0)
   \<and> staging_location small_job = output_dir small_job @ ''/tmp/staging''
   \<and> temp_location small_job = output_dir small_job @ ''/tmp''
   \<and> file_path_prefix small_written = output_dir small_job @ ''/examples''
   \<and> output_dir small_job \<noteq> output_dir later_job
   \<and> (\<forall>p q. output_dir small_job @ p \<noteq> output_dir later_job @ q)"
proof -
  from small_clock_valid have v: "valid_datetime (now small_world 0)"
    "valid_datetime (now later_world 0)"
    "at_second (now small_world 0) \<noteq> at_second (now later_world 0)" by simp_all
  from runs_write_under_their_own_time_stamp [OF small_run later_run v] small_run later_run v
  show ?thesis by blast
qed

section \<open>Strategies and the side input\<close>

lemma sample_to_example_fn_Inr:
  assumes "sample_to_example_fn t opts = Inr f"
  obtains name_fn words_fn features_fn where
    "variant_to_feature_name_fn t opts = Inr name_fn"
    and "build_variant_to_words t (add_hethom opts) = Inr words_fn"
    and "build_variants_to_features t name_fn words_fn = Inr features_fn"
    and "build_sample_to_example t (metadata_to_ancestry_features t) features_fn = Inr f"
proof -
  from assms [unfolded sample_to_example_fn_def] obtain features_fn where
    v: "variants_to_features_fn t opts = Inr features_fn"
    and b: "build_sample_to_example t (metadata_to_ancestry_features t) features_fn = Inr f"
    by (rule and_then_Inr)
  from v [unfolded variants_to_features_fn_def] obtain name_fn where
    n: "variant_to_feature_name_fn t opts = Inr name_fn"
    and r: "and_then (build_variant_to_words t (add_hethom opts)) (\<lambda>words_fn.
              build_variants_to_features t name_fn words_fn) = Inr features_fn"
    by (rule and_then_Inr)
  from r obtain words_fn where
    "build_variant_to_words t (add_hethom opts) = Inr words_fn"
    "build_variants_to_features t name_fn words_fn = Inr features_fn"
    by (rule and_then_Inr)
  with n b that show thesis by blast
qed

lemma variant_to_feature_name_fn_Inr:
  assumes "variant_to_feature_name_fn t opts = Inr name_fn"
  shows "(bin_size opts = None \<and> name_fn = variant_to_contig_feature_name t)
       \<or> (\<exists>n. bin_size opts = Some n
              \<and> build_variant_to_binned_feature_name t n = Inr name_fn)"
  using assms by (cases "bin_size opts") (auto simp: variant_to_feature_name_fn_def)

lemma run_after_startup:
  assumes "startup c t w argv = Inr (options, metadata_query, data_query, f)"
  shows "run c t w argv =
           and_then (pipeline c t w options metadata_query data_query f) (\<lambda>written.
             Inr (options, written))"
  using assms by (simp add: run_def and_then_def)





text \<open>
  Claim C4. When \<open>run\<close> gets to its pipeline, the assembler it runs the pipeline with
  is built from a feature-name strategy that is the whole-contig strategy when
  \<open>bin_size\<close> is None, and otherwise what \<open>build_variant_to_binned_feature_name\<close>
  returned for exactly the configured width. \<open>bin_size\<close> is None when \<open>--bin_size\<close>
  does not occur, and it is the integer of the last occurrence when it does.
\<close>

theorem strategy_follows_bin_size:
  assumes "startup c t w argv = Inr (options, metadata_query, data_query, f)"
  shows "\<exists>opts name_fn words_fn features_fn.
           parse_args argv = Inr opts
         \<and> ((bin_size opts = None \<and> name_fn = variant_to_contig_feature_name t)
            \<or> (\<exists>n. bin_size opts = Some n
                   \<and> build_variant_to_binned_feature_name t n = Inr name_fn))
         \<and> build_variants_to_features t name_fn words_fn = Inr features_fn
         \<and> build_sample_to_example t (metadata_to_ancestry_features t) features_fn = Inr f
         \<and> run c t w argv =
             and_then (pipeline c t w options metadata_query data_query f) (\<lambda>written.
               Inr (options, written))
         \<and> ((\<forall>v. BinSize v \<notin> set argv) \<longrightarrow> bin_size opts = None)
         \<and> (\<forall>pre v post. argv = pre @ BinSize v # post \<and> (\<forall>u. BinSize u \<notin> set post) \<longrightarrow>
              (\<exists>n. py_int v = Inr n \<and> bin_size opts = Some n))"
proof -
  from assms obtain opts where p: "parse_args argv = Inr opts"
    and s: "sample_to_example_fn t opts = Inr f" by (rule startup_Inr)
  from s obtain name_fn words_fn features_fn where
    n: "variant_to_feature_name_fn t opts = Inr name_fn"
    and v: "build_variants_to_features t name_fn words_fn = Inr features_fn"
    and b: "build_sample_to_example t (metadata_to_ancestry_features t) features_fn = Inr f"
    by (rule sample_to_example_fn_Inr)
  note variant_to_feature_name_fn_Inr [OF n] run_after_startup [OF assms]
    bin_size_of_argv [OF p]
  with p v b show ?thesis by blast
qed

text \<open>
  Claim C5. The default of \<open>add_hethom\<close> is true. When \<open>run\<close> gets to its pipeline, the
  assembler it runs the pipeline with is built from the word strategy that
  \<open>build_variant_to_words\<close> returned for exactly the configured value, and that value
  is true when neither flag occurs or \<open>--hethom_words\<close> is the last of the two, and
  false when \<open>--no_hethom_words\<close> is the last of the two.
\<close>

theorem hethom_toggle_reaches_words_builder:
  assumes "startup c t w argv = Inr (options, metadata_query, data_query, f)"
  shows "ns_add_hethom defaults
       \<and> (\<exists>opts name_fn words_fn features_fn.
             parse_args argv = Inr opts
           \<and> build_variant_to_words t (add_hethom opts) = Inr words_fn
           \<and> build_variants_to_features t name_fn words_fn = Inr features_fn
           \<and> build_sample_to_example t (metadata_to_ancestry_features t) features_fn = Inr f
           \<and> run c t w argv =
               and_then (pipeline c t w options metadata_query data_query f) (\<lambda>written.
                 Inr (options, written))
           \<and> (HethomWords \<notin> set argv \<and> NoHethomWords \<notin> set argv \<longrightarrow> add_hethom opts)
           \<and> (\<forall>pre post. argv = pre @ HethomWords # post \<and> NoHethomWords \<notin> set post \<longrightarrow>
                add_hethom opts)
           \<and> (\<forall>pre post. argv = pre @ NoHethomWords # post \<and> HethomWords \<notin> set post \<longrightarrow>
                \<not> add_hethom opts))"
proof -
  from assms obtain opts where p: "parse_args argv = Inr opts"
    and s: "sample_to_example_fn t opts = Inr f" by (rule startup_Inr)
  from s obtain name_fn words_fn features_fn where
    w: "build_variant_to_words t (add_hethom opts) = Inr words_fn"
    and v: "build_variants_to_features t name_fn words_fn = Inr features_fn"
    and b: "build_sample_to_example t (metadata_to_ancestry_features t) features_fn = Inr f"
    by (rule sample_to_example_fn_Inr)
  have d: "ns_add_hethom defaults" by (simp add: defaults_def)
  note run_after_startup [OF assms] add_hethom_of_argv [OF p]
  with d p w v b show ?thesis by blast
qed


theorem variants_to_examples_once_per_key_witness:
  "list_all (\<lambda>row. row (KEY_COLUMN spec_columns) \<noteq> None) small_variants
   \<and> variants_to_examples spec_columns small_variants small_dict small_example_fn =
       Inr small_examples
   \<and> (\<exists>calls.
         distinct (map fst calls)
       \<and> fst ` set calls =
           {key. \<exists>row \<in> set small_variants. row (KEY_COLUMN spec_columns) = Some key}
       \<and> (\<forall>(key, vals) \<in> set calls.
             vals = filter (\<lambda>row. row (KEY_COLUMN spec_columns) = Some key) small_variants)
       \<and> map (\<lambda>(key, vals). small_example_fn key vals small_dict) calls =
           map Inr small_examples)"
proof -
  have "list_all (\<lambda>row. row (KEY_COLUMN spec_columns) \<noteq> None) small_variants"
    using small_variants_keyed by (simp only: list_all_iff)
  with variants_to_examples_once_per_key
         [OF small_variants_keyed, of small_dict small_example_fn]
    small_run_examples
  show ?thesis by blast
qed

lemma small_variants_read:
  "BigQuerySource small_world ''SELECT key , start FROM v'' = Inr small_variants"
  by (simp add: small_world_def)

lemma small_pipeline:
  "pipeline spec_columns spec_trainer small_world small_job ''SELECT key , gender FROM m''
     ''SELECT key , start FROM v'' small_example_fn = Inr small_written"
  by code_simp

lemma guarded_same:
  "\<forall>key vals.
     guarded_example_fn key vals
       (TableToDictCombineFn spec_trainer (KEY_COLUMN spec_columns) small_metadata) =
     small_example_fn key vals
       (TableToDictCombineFn spec_trainer (KEY_COLUMN spec_columns) small_metadata)"
  by (simp add: guarded_example_fn_def small_dict_complete)

theorem side_input_is_the_global_combine_witness:
  "BigQuerySource small_world ''SELECT key , gender FROM m'' = Inr small_metadata
   \<and> BigQuerySource small_world ''SELECT key , start FROM v'' = Inr small_variants
   \<and> list_all (\<lambda>row. row (KEY_COLUMN spec_columns) \<noteq> None) small_variants
   \<and> pipeline spec_columns spec_trainer small_world small_job ''SELECT key , gender FROM m''
        ''SELECT key , start FROM v'' small_example_fn = Inr small_written
   \<and> (\<exists>calls examples.
         distinct (map fst calls)
       \<and> fst ` set calls =
           {key. \<exists>row \<in> set small_variants. row (KEY_COLUMN spec_columns) = Some key}
       \<and> (\<forall>(key, vals) \<in> set calls.
             vals = filter (\<lambda>row. row (KEY_COLUMN spec_columns) = Some key) small_variants)
       \<and> map (\<lambda>(key, vals).
                small_example_fn key vals
                  (TableToDictCombineFn spec_trainer (KEY_COLUMN spec_columns) small_metadata))
           calls = map Inr examples
       \<and> records small_written = map (SerializeToString spec_trainer) examples)
   \<and> pipeline spec_columns spec_trainer small_world small_job ''SELECT key , gender FROM m''
        ''SELECT key , start FROM v'' guarded_example_fn =
       pipeline spec_columns spec_trainer small_world small_job ''SELECT key , gender FROM m''
        ''SELECT key , start FROM v'' small_example_fn"
proof -
  have k: "list_all (\<lambda>row. row (KEY_COLUMN spec_columns) \<noteq> None) small_variants"
    using small_variants_keyed by (simp only: list_all_iff)
  from side_input_is_the_global_combine
         [where f = small_example_fn and t = spec_trainer and c = spec_columns
            and options = small_job,
          OF small_metadata_read small_variants_read small_variants_keyed]
    small_pipeline guarded_same small_metadata_read small_variants_read k
  show ?thesis by blast
qed

lemma binned_startup:
  "startup spec_columns spec_trainer small_world binned_argv =
     Inr (small_job, ''SELECT key , gender FROM m'', ''SELECT key , start FROM v'',
          binned_example_fn)"
  by (simp add: startup_def binned_parse binned_options_def small_options_def
        and_then_def job_options_def small_world_def small_clock_def
        strftime_def directive_def pad2_def digit_def str_nat.simps os_path_join_def join2_def
        render_query_def render_words_def render_word_def
        METADATA_QUERY_REPLACEMENTS_def DATA_QUERY_REPLACEMENTS_def spec_columns_def
        sample_to_example_fn_def variants_to_features_fn_def variant_to_feature_name_fn_def
        spec_trainer_def spec_build_binned_feature_name_def binned_example_fn_def small_job_def)

lemma binned_run:
  "run spec_columns spec_trainer small_world binned_argv = Inr (small_job, binned_written)"
  by code_simp

theorem strategy_follows_bin_size_witness:
  "startup spec_columns spec_trainer small_world binned_argv =
     Inr (small_job, ''SELECT key , gender FROM m'', ''SELECT key , start FROM v'',
          binned_example_fn)
   \<and> parse_args binned_argv = Inr binned_options
   \<and> bin_size binned_options = Some 50
   \<and> run spec_columns spec_trainer small_world binned_argv = Inr (small_job, binned_written)
   \<and> (\<exists>name_fn words_fn features_fn.
         build_variant_to_binned_feature_name spec_trainer 50 = Inr name_fn
       \<and> build_variants_to_features spec_trainer name_fn words_fn = Inr features_fn
       \<and> build_sample_to_example spec_trainer (metadata_to_ancestry_features spec_trainer)
           features_fn = Inr binned_example_fn)"
proof -
  have b: "bin_size binned_options = Some 50" by (simp add: binned_options_def)
  from strategy_follows_bin_size [OF binned_startup] binned_parse b
  have "\<exists>name_fn words_fn features_fn.
         build_variant_to_binned_feature_name spec_trainer 50 = Inr name_fn
       \<and> build_variants_to_features spec_trainer name_fn words_fn = Inr features_fn
       \<and> build_sample_to_example spec_trainer (metadata_to_ancestry_features spec_trainer)
           features_fn = Inr binned_example_fn"
    by auto
  with binned_startup binned_parse b binned_run show ?thesis by blast
qed

theorem hethom_toggle_reaches_words_builder_witness:
  "startup spec_columns spec_trainer small_world binned_argv =
     Inr (small_job, ''SELECT key , gender FROM m'', ''SELECT key , start FROM v'',
          binned_example_fn)
   \<and> parse_args binned_argv = Inr binned_options
   \<and> \<not> add_hethom binned_options
   \<and> (\<exists>name_fn words_fn features_fn.
         build_variant_to_words spec_trainer False = Inr words_fn
       \<and> build_variants_to_features spec_trainer name_fn words_fn = Inr features_fn
       \<and> build_sample_to_example spec_trainer (metadata_to_ancestry_features spec_trainer)
           features_fn = Inr binned_example_fn)
   \<and> startup spec_columns spec_trainer small_world small_argv =
       Inr (small_job, ''SELECT key , gender FROM m'', ''SELECT key , start FROM v'',
            small_example_fn)
   \<and> parse_args small_argv = Inr small_options
   \<and> add_hethom small_options"
proof -
  have off: "binned_argv = (small_argv @ [BinSize ''50'']) @ NoHethomWords # []
             \<and> HethomWords \<notin> set []"
    by (simp add: binned_argv_def)
  have none: "HethomWords \<notin> set small_argv \<and> NoHethomWords \<notin> set small_argv"
    by (simp add: small_argv_def)
  from hethom_toggle_reaches_words_builder [OF binned_startup]
  obtain opts name_fn words_fn features_fn where
    p: "parse_args binned_argv = Inr opts"
    and built: "build_variant_to_words spec_trainer (add_hethom opts) = Inr words_fn"
      "build_variants_to_features spec_trainer name_fn words_fn = Inr features_fn"
      "build_sample_to_example spec_trainer (metadata_to_ancestry_features spec_trainer)
         features_fn = Inr binned_example_fn"
    and last: "\<forall>pre post. binned_argv = pre @ NoHethomWords # post \<and> HethomWords \<notin> set post \<longrightarrow>
                 \<not> add_hethom opts"
    by blast
  from p binned_parse have o: "opts = binned_options" by simp
  from last off have no: "\<not> add_hethom opts" by blast
  with built o have 1: "\<not> add_hethom binned_options
     \<and> (\<exists>name_fn words_fn features_fn.
         build_variant_to_words spec_trainer False = Inr words_fn
       \<and> build_variants_to_features spec_trainer name_fn words_fn = Inr features_fn
       \<and> build_sample_to_example spec_trainer (metadata_to_ancestry_features spec_trainer)
           features_fn = Inr binned_example_fn)"
    by auto
  from hethom_toggle_reaches_words_builder [OF small_startup]
  obtain opts' where p': "parse_args small_argv = Inr opts'"
    and first: "HethomWords \<notin> set small_argv \<and> NoHethomWords \<notin> set small_argv \<longrightarrow>
                  add_hethom opts'"
    by blast
  from p' small_parse have "opts' = small_options" by simp
  with first none have 2: "add_hethom small_options" by blast
  from 1 2 binned_startup binned_parse small_startup small_parse show ?thesis by auto
qed





lemma negative_run:
  "run spec_columns spec_trainer small_world negative_argv =
     Inl (ValueError ''bin_size must be a positive integer'')"
  by code_simp


end
